theory Spec2Isabelle
  imports Main "HOL-Library.Word" "HOL-Library.Sublist" "HOL-Library.Multiset"
begin

section \<open>Data model of pkg/rtc/mediatrackreceiver.go\<close>

text \<open>
  The publisher-side media track receiver, embedded call by call. One call of a method
  of \<open>MediaTrackReceiver\<close> is one function from the object's value before the call to
  its value after it (the methods take the lock around their mutations, so a call is
  modelled as atomic). Calls that leave the object (hooks, the subscriptions
  collaborator, the receivers' own methods) are recorded in an event log, in the order
  the code makes them. Logging is left out.
\<close>

subsection \<open>livekit protocol values\<close>

text \<open>
  \<open>livekit.VideoQuality\<close> is an int32 enumeration; the conversion
  \<open>livekit.VideoQuality(i)\<close> accepts any integer, so the type is \<open>int\<close> with the
  four named values.
\<close>

type_synonym VideoQuality = int

definition VideoQuality_LOW :: VideoQuality where "VideoQuality_LOW = 0"
definition VideoQuality_MEDIUM :: VideoQuality where "VideoQuality_MEDIUM = 1"
definition VideoQuality_HIGH :: VideoQuality where "VideoQuality_HIGH = 2"
definition VideoQuality_OFF :: VideoQuality where "VideoQuality_OFF = 3"

datatype TrackType = TrackType_AUDIO | TrackType_VIDEO | TrackType_DATA

record VideoLayer =
  vl_Quality :: VideoQuality
  vl_Width :: "32 word"
  vl_Height :: "32 word"
  vl_Ssrc :: "32 word"

record SimulcastCodecInfo =
  ci_MimeType :: string
  ci_Mid :: string
  ci_Cid :: string
  ci_Layers :: "VideoLayer list"

record TrackInfo =
  ti_Sid :: string
  ti_Type :: TrackType
  ti_Muted :: bool
  ti_Width :: "32 word"
  ti_Height :: "32 word"
  ti_MimeType :: string
  ti_Mid :: string
  ti_Codecs :: "SimulcastCodecInfo list"
  ti_Layers :: "VideoLayer list"
  ti_DisableRed :: bool

record RTPCodecParameters =
  MimeType :: string
  ClockRate :: nat

subsection \<open>Case-insensitive comparison of mime types\<close>

text \<open>
  \<open>strings.EqualFold\<close> on the ASCII range: the letters A to Z fold to a to z, every
  other byte is compared as it is. Codec mime types are ASCII.
\<close>

definition toLower :: "char \<Rightarrow> char" where
  "toLower c = (let n = (of_char c :: nat) in if 65 \<le> n \<and> n \<le> 90 then char_of (n + 32) else c)"

definition EqualFold :: "string \<Rightarrow> string \<Rightarrow> bool" where
  "EqualFold s t = (map toLower s = map toLower t)"

subsection \<open>Receivers and slots\<close>

text \<open>
  A value of the interface \<open>sfu.TrackReceiver\<close> is either a \<open>*DummyReceiver\<close> or some
  other implementation (in the server, \<open>*sfu.WebRTCReceiver\<close>), which is opaque here:
  an identity and the codec it reports.

  Modelled from the spec: \<open>DummyReceiver\<close> (pkg/rtc/dummyreceiver.go is not among the
  sources). It carries the provisional codec parameters and the header extensions it was
  created with, and a delegate that is empty until \<open>Upgrade\<close> sets it; \<open>Receiver\<close>
  returns the delegate or nil; a delegate that is set is never replaced.
\<close>

datatype TrackReceiver =
    DummyReceiver RTPCodecParameters "string list" "TrackReceiver option"
  | WebRTCReceiver nat RTPCodecParameters

fun Codec :: "TrackReceiver \<Rightarrow> RTPCodecParameters" where
  "Codec (DummyReceiver c hs d) = c"
| "Codec (WebRTCReceiver i c) = c"

fun isDummy :: "TrackReceiver \<Rightarrow> bool" where
  "isDummy (DummyReceiver c hs d) = True"
| "isDummy (WebRTCReceiver i c) = False"

definition NewDummyReceiver :: "RTPCodecParameters \<Rightarrow> string list \<Rightarrow> TrackReceiver" where
  "NewDummyReceiver c hs = DummyReceiver c hs None"

fun Receiver :: "TrackReceiver \<Rightarrow> TrackReceiver option" where
  "Receiver (DummyReceiver c hs d) = d"
| "Receiver (WebRTCReceiver i c) = None"

fun Upgrade :: "TrackReceiver \<Rightarrow> TrackReceiver \<Rightarrow> TrackReceiver" where
  "Upgrade receiver (DummyReceiver c hs None) = DummyReceiver c hs (Some receiver)"
| "Upgrade receiver (DummyReceiver c hs (Some d)) = DummyReceiver c hs (Some d)"
| "Upgrade receiver (WebRTCReceiver i c) = WebRTCReceiver i c"

text \<open>
  A slot is a \<open>*simulcastReceiver\<close>: \<open>addr\<close> is the pointer, the identity of the slot,
  taken from the allocation counter of the object when the code allocates
  \<open>&simulcastReceiver{...}\<close>.
\<close>

record simulcastReceiver =
  addr :: nat
  TrackReceiver :: TrackReceiver
  priority :: int

definition slotMime :: "simulcastReceiver \<Rightarrow> string" where
  "slotMime r = MimeType (Codec (TrackReceiver r))"

subsection \<open>The object\<close>

datatype mediaTrackReceiverState =
    mediaTrackReceiverStateOpen
  | mediaTrackReceiverStateClosing
  | mediaTrackReceiverStateClosed

record MediaTrackReceiverParams =
  ParticipantID :: string
  ActiveREDEncoding :: bool

record WrappedReceiverParams =
  wr_Receivers :: "simulcastReceiver list"
  wr_TrackID :: string
  wr_StreamId :: string
  wr_UpstreamCodecs :: "RTPCodecParameters list"
  wr_DisableRed :: bool

record LocalParticipant =
  sub_ID :: string
  SupportsPackedStreamId :: bool

text \<open>Calls that leave the object, in the order they are made.\<close>

datatype event =
    CallOnSetupReceiver nat string
  | CallOnClose nat mediaTrackReceiverState
  | RemoveAllSubscribersForMime string bool
  | ReceiverSetUpTrackPaused nat bool
  | SubscriptionsSetMuted bool
  | ReceiverUpdateTrackInfo nat TrackInfo
  | SubscriptionsUpdateVideoLayers
  | SubscriptionsAddSubscriber LocalParticipant WrappedReceiverParams

record MediaTrackReceiver =
  params :: MediaTrackReceiverParams
  receivers :: "simulcastReceiver list"
  trackInfo :: TrackInfo
  potentialCodecs :: "RTPCodecParameters list"
  state :: mediaTrackReceiverState
  onSetupReceiver :: "nat option"
  onClose :: "nat list"
  next_addr :: nat
  events :: "event list"

text \<open>
  A hook is a Go function value; here it is a number, \<open>None\<close> is the nil function, and
  calling it appends an event. \<open>CallOnClose f s\<close> records the state \<open>s\<close> of the object
  at the moment hook \<open>f\<close> is called.
\<close>

definition emit :: "event list \<Rightarrow> MediaTrackReceiver \<Rightarrow> MediaTrackReceiver" where
  "emit es t = t\<lparr>events := events t @ es\<rparr>"

section \<open>Operations\<close>

subsection \<open>SetMuted and NewMediaTrackReceiver\<close>

definition SetMuted :: "bool \<Rightarrow> MediaTrackReceiver \<Rightarrow> MediaTrackReceiver" where
  "SetMuted muted t =
     (let t1 = t\<lparr>trackInfo := (trackInfo t)\<lparr>ti_Muted := muted\<rparr>\<rparr>
      in emit (map (\<lambda>r. ReceiverSetUpTrackPaused (addr r) muted) (receivers t1)
               @ [SubscriptionsSetMuted muted]) t1)"

definition NewMediaTrackReceiver :: "MediaTrackReceiverParams \<Rightarrow> TrackInfo \<Rightarrow> MediaTrackReceiver" where
  "NewMediaTrackReceiver ps ti =
     (let t = \<lparr>params = ps, receivers = [], trackInfo = ti, potentialCodecs = [],
               state = mediaTrackReceiverStateOpen, onSetupReceiver = None, onClose = [],
               next_addr = 0, events = []\<rparr>
      in if ti_Muted (trackInfo t) then SetMuted True t else t)"

definition OnSetupReceiver :: "nat option \<Rightarrow> MediaTrackReceiver \<Rightarrow> MediaTrackReceiver" where
  "OnSetupReceiver f t = t\<lparr>onSetupReceiver := f\<rparr>"

subsection \<open>SetupReceiver\<close>

text \<open>
  The scan for a slot to upgrade: the first slot whose mime matches and whose receiver is
  a \<open>*DummyReceiver\<close> is upgraded and the scan stops; a matching slot that is not a
  Dummy does not stop it. The result is the list and the flag \<open>upgradeReceiver\<close>.
\<close>

fun SetupReceiver_upgrade ::
  "TrackReceiver \<Rightarrow> simulcastReceiver list \<Rightarrow> simulcastReceiver list \<times> bool" where
  "SetupReceiver_upgrade receiver [] = ([], False)"
| "SetupReceiver_upgrade receiver (r # rs) =
     (if EqualFold (slotMime r) (MimeType (Codec receiver)) \<and> isDummy (TrackReceiver r)
      then (r\<lparr>TrackReceiver := Upgrade receiver (TrackReceiver r)\<rparr> # rs, True)
      else (case SetupReceiver_upgrade receiver rs of (rs', u) \<Rightarrow> (r # rs', u)))"

text \<open>
  \<open>sort.Slice\<close> with the comparison \<open>Priority() < Priority()\<close> is \<open>sort_key priority\<close>:
  the insertion sort Go runs on slices of at most 12 elements, which keeps slots of equal
  priority in the order they had.
\<close>

definition SetupReceiver_trackInfo :: "TrackReceiver \<Rightarrow> int \<Rightarrow> string \<Rightarrow> TrackInfo \<Rightarrow> TrackInfo" where
  "SetupReceiver_trackInfo receiver prio mid ti =
     (if mid \<noteq> [] then
        (let ti1 = (if prio = 0
                    then ti\<lparr>ti_MimeType := MimeType (Codec receiver), ti_Mid := mid\<rparr>
                    else ti)
         in if 0 \<le> prio \<and> nat prio < length (ti_Codecs ti1)
            then ti1\<lparr>ti_Codecs := (ti_Codecs ti1)[nat prio :=
                   (ti_Codecs ti1 ! nat prio)\<lparr>ci_MimeType := MimeType (Codec receiver), ci_Mid := mid\<rparr>]\<rparr>
            else ti1)
      else ti)"

definition SetupReceiver ::
  "TrackReceiver \<Rightarrow> int \<Rightarrow> string \<Rightarrow> MediaTrackReceiver \<Rightarrow> MediaTrackReceiver" where
  "SetupReceiver receiver prio mid t =
     (if state t \<noteq> mediaTrackReceiverStateOpen then t
      else
        (case SetupReceiver_upgrade receiver (receivers t) of (rs, upgradeReceiver) \<Rightarrow>
          (let rs1 = (if \<not> upgradeReceiver
                      then rs @ [\<lparr>addr = next_addr t, TrackReceiver = receiver, priority = prio\<rparr>]
                      else rs);
               n1 = (if \<not> upgradeReceiver then Suc (next_addr t) else next_addr t);
               t1 = t\<lparr>receivers := sort_key priority rs1,
                       trackInfo := SetupReceiver_trackInfo receiver prio mid (trackInfo t),
                       next_addr := n1\<rparr>
           in (case onSetupReceiver t1 of
                 None \<Rightarrow> t1
               | Some f \<Rightarrow> emit [CallOnSetupReceiver f (MimeType (Codec receiver))] t1))))"

subsection \<open>SetPotentialCodecs\<close>

text \<open>
  \<open>sfu.IsSvcCodec\<close> and \<open>dependencydescriptor.ExtensionURI\<close> are declared in packages
  that are not among the sources; they are parameters. A header extension is its URI.
\<close>

record sfu_deps =
  IsSvcCodec :: "string \<Rightarrow> bool"
  ExtensionURI :: string

fun SetPotentialCodecs_loop ::
  "sfu_deps \<Rightarrow> string list \<Rightarrow> string list \<Rightarrow> nat \<Rightarrow> RTPCodecParameters list \<Rightarrow>
   simulcastReceiver list \<times> nat \<Rightarrow> simulcastReceiver list \<times> nat" where
  "SetPotentialCodecs_loop sfu headers headersWithoutDD i [] (rs, n) = (rs, n)"
| "SetPotentialCodecs_loop sfu headers headersWithoutDD i (c # cs) (rs, n) =
     (if \<exists>r \<in> set rs. EqualFold (MimeType c) (slotMime r)
      then SetPotentialCodecs_loop sfu headers headersWithoutDD (Suc i) cs (rs, n)
      else SetPotentialCodecs_loop sfu headers headersWithoutDD (Suc i) cs
             (rs @ [\<lparr>addr = n,
                     TrackReceiver = NewDummyReceiver c
                       (if \<not> IsSvcCodec sfu (MimeType c) then headersWithoutDD else headers),
                     priority = int i\<rparr>],
              Suc n))"

definition SetPotentialCodecs ::
  "sfu_deps \<Rightarrow> RTPCodecParameters list \<Rightarrow> string list \<Rightarrow> MediaTrackReceiver \<Rightarrow> MediaTrackReceiver" where
  "SetPotentialCodecs sfu codecs headers t =
     (let headersWithoutDD = filter (\<lambda>h. h \<noteq> ExtensionURI sfu) headers
      in case SetPotentialCodecs_loop sfu headers headersWithoutDD 0 codecs (receivers t, next_addr t) of
           (rs, n) \<Rightarrow> t\<lparr>receivers := sort_key priority rs, potentialCodecs := codecs, next_addr := n\<rparr>)"

subsection \<open>ClearReceiver and ClearAllReceivers\<close>

text \<open>
  Removal of the first matching slot: the last slot is copied into its place and the
  list is cut by one. \<open>idx\<close> counts the slots already passed.
\<close>

fun ClearReceiver_find :: "string \<Rightarrow> simulcastReceiver list \<Rightarrow> nat option" where
  "ClearReceiver_find mime [] = None"
| "ClearReceiver_find mime (r # rs) =
     (if EqualFold (slotMime r) mime then Some 0
      else map_option Suc (ClearReceiver_find mime rs))"

definition ClearReceiver_slots :: "string \<Rightarrow> simulcastReceiver list \<Rightarrow> simulcastReceiver list" where
  "ClearReceiver_slots mime rs =
     (case ClearReceiver_find mime rs of
        None \<Rightarrow> rs
      | Some idx \<Rightarrow> butlast (rs[idx := last rs]))"

definition ClearReceiver :: "string \<Rightarrow> bool \<Rightarrow> MediaTrackReceiver \<Rightarrow> MediaTrackReceiver" where
  "ClearReceiver mime willBeResumed t =
     emit [RemoveAllSubscribersForMime mime willBeResumed]
       (t\<lparr>receivers := ClearReceiver_slots mime (receivers t)\<rparr>)"

definition ClearAllReceivers :: "bool \<Rightarrow> MediaTrackReceiver \<Rightarrow> MediaTrackReceiver" where
  "ClearAllReceivers willBeResumed t =
     emit (map (\<lambda>r. RemoveAllSubscribersForMime (slotMime r) willBeResumed) (receivers t))
       (t\<lparr>receivers := []\<rparr>)"

subsection \<open>Life cycle: SetClosing, Close, TryClose, AddOnClose\<close>

definition SetClosing :: "MediaTrackReceiver \<Rightarrow> MediaTrackReceiver" where
  "SetClosing t =
     (if state t = mediaTrackReceiverStateOpen
      then t\<lparr>state := mediaTrackReceiverStateClosing\<rparr> else t)"

definition Close :: "MediaTrackReceiver \<Rightarrow> MediaTrackReceiver" where
  "Close t =
     (if state t = mediaTrackReceiverStateClosed then t
      else
        (let t1 = t\<lparr>state := mediaTrackReceiverStateClosed\<rparr>;
             onclose = onClose t1
         in emit (map (\<lambda>f. CallOnClose f (state t1)) onclose) t1))"

definition upgradedDummy :: "simulcastReceiver \<Rightarrow> bool" where
  "upgradedDummy r = (isDummy (TrackReceiver r) \<and> Receiver (TrackReceiver r) \<noteq> None)"

definition TryClose :: "MediaTrackReceiver \<Rightarrow> bool \<times> MediaTrackReceiver" where
  "TryClose t =
     (if state t = mediaTrackReceiverStateClosed then (True, t)
      else if list_ex upgradedDummy (receivers t) then (False, t)
      else (True, Close t))"

definition AddOnClose :: "nat option \<Rightarrow> MediaTrackReceiver \<Rightarrow> MediaTrackReceiver" where
  "AddOnClose f t = (case f of None \<Rightarrow> t | Some g \<Rightarrow> t\<lparr>onClose := onClose t @ [g]\<rparr>)"

subsection \<open>AddSubscriber\<close>

datatype error = ErrNotOpen | ErrNoReceiver | ErrSubscriptions string

type_synonym SubscribedTrack = nat

text \<open>
  \<open>MediaTrackSubscriptions.AddSubscriber\<close> and \<open>PackStreamID\<close> are in files that are
  not among the sources; they are parameters. The call to the collaborator is an event.
\<close>

record subscriber_deps =
  Subscriptions_AddSubscriber :: "LocalParticipant \<Rightarrow> WrappedReceiverParams \<Rightarrow> error + SubscribedTrack"
  PackStreamID :: "string \<Rightarrow> string \<Rightarrow> string"

fun AddSubscriber_codecs ::
  "simulcastReceiver list \<Rightarrow> RTPCodecParameters list \<Rightarrow> RTPCodecParameters list" where
  "AddSubscriber_codecs [] pcs = pcs"
| "AddSubscriber_codecs (r # rs) pcs =
     (if \<exists>pc \<in> set pcs. MimeType (Codec (TrackReceiver r)) = MimeType pc
      then AddSubscriber_codecs rs pcs
      else AddSubscriber_codecs rs (pcs @ [Codec (TrackReceiver r)]))"

definition AddSubscriber ::
  "subscriber_deps \<Rightarrow> LocalParticipant \<Rightarrow> MediaTrackReceiver \<Rightarrow>
   (error + SubscribedTrack) \<times> MediaTrackReceiver" where
  "AddSubscriber deps sub t =
     (if state t \<noteq> mediaTrackReceiverStateOpen then (Inl ErrNotOpen, t)
      else if length (receivers t) = 0 then (Inl ErrNoReceiver, t)
      else
        (let potentialCodecs1 = AddSubscriber_codecs (receivers t) (potentialCodecs t);
             streamId = (if SupportsPackedStreamId sub
                         then PackStreamID deps (ParticipantID (params t)) (ti_Sid (trackInfo t))
                         else ParticipantID (params t));
             wr = \<lparr>wr_Receivers = receivers t, wr_TrackID = ti_Sid (trackInfo t),
                   wr_StreamId = streamId, wr_UpstreamCodecs = potentialCodecs1,
                   wr_DisableRed = (ti_DisableRed (trackInfo t) \<or> \<not> ActiveREDEncoding (params t))\<rparr>
         in (Subscriptions_AddSubscriber deps sub wr, emit [SubscriptionsAddSubscriber sub wr] t)))"

subsection \<open>Sequences of life-cycle calls\<close>

datatype lifecycle_call = CallSetClosing | CallClose | CallTryClose

fun lifecycle_step :: "lifecycle_call \<Rightarrow> MediaTrackReceiver \<Rightarrow> MediaTrackReceiver" where
  "lifecycle_step CallSetClosing t = SetClosing t"
| "lifecycle_step CallClose t = Close t"
| "lifecycle_step CallTryClose t = snd (TryClose t)"

text \<open>The state before the first call and after each call.\<close>

fun state_trace :: "MediaTrackReceiver \<Rightarrow> lifecycle_call list \<Rightarrow> mediaTrackReceiverState list" where
  "state_trace t [] = [state t]"
| "state_trace t (c # cs) = state t # state_trace (lifecycle_step c t) cs"

subsection \<open>Sequences of SetupReceiver and SetPotentialCodecs calls\<close>

datatype setup_call =
    CallSetupReceiver TrackReceiver int string
  | CallSetPotentialCodecs "RTPCodecParameters list" "string list"

fun setup_step :: "sfu_deps \<Rightarrow> setup_call \<Rightarrow> MediaTrackReceiver \<Rightarrow> MediaTrackReceiver" where
  "setup_step sfu (CallSetupReceiver receiver prio mid) t = SetupReceiver receiver prio mid t"
| "setup_step sfu (CallSetPotentialCodecs codecs headers) t = SetPotentialCodecs sfu codecs headers t"

definition setup_run :: "sfu_deps \<Rightarrow> MediaTrackReceiver \<Rightarrow> setup_call list \<Rightarrow> MediaTrackReceiver" where
  "setup_run sfu t cs = foldl (\<lambda>s c. setup_step sfu c s) t cs"

text \<open>At most one slot per mime type, compared case-insensitively.\<close>

definition no_mime_duplicates :: "simulcastReceiver list \<Rightarrow> bool" where
  "no_mime_duplicates rs = distinct (map (\<lambda>r. map toLower (slotMime r)) rs)"

text \<open>
  A \<open>SetupReceiver\<close> call is free of collisions when every slot its receiver's mime
  matches holds a DummyReceiver; a sequence of calls is, when each call is in the state
  it is made in.
\<close>

fun collision_free_call :: "MediaTrackReceiver \<Rightarrow> setup_call \<Rightarrow> bool" where
  "collision_free_call t (CallSetupReceiver receiver prio mid) =
     (\<forall>r \<in> set (receivers t).
        EqualFold (slotMime r) (MimeType (Codec receiver)) \<longrightarrow> isDummy (TrackReceiver r))"
| "collision_free_call t (CallSetPotentialCodecs codecs headers) = True"

fun collision_free :: "sfu_deps \<Rightarrow> MediaTrackReceiver \<Rightarrow> setup_call list \<Rightarrow> bool" where
  "collision_free sfu t [] = True"
| "collision_free sfu t (c # cs) =
     (collision_free_call t c \<and> collision_free sfu (setup_step sfu c t) cs)"

text \<open>
  The same slot, before and after: the same pointer, the same priority, a receiver of the
  same kind (a Dummy stays the Dummy it was, upgraded or not) reporting the same codec.
\<close>

definition same_slot :: "simulcastReceiver \<Rightarrow> simulcastReceiver \<Rightarrow> bool" where
  "same_slot r r' =
     (addr r' = addr r \<and> priority r' = priority r
      \<and> isDummy (TrackReceiver r') = isDummy (TrackReceiver r)
      \<and> Codec (TrackReceiver r') = Codec (TrackReceiver r))"

text \<open>The pointers of the slots are pairwise different and below the allocation counter.\<close>

definition slots_wf :: "simulcastReceiver list \<Rightarrow> nat \<Rightarrow> bool" where
  "slots_wf rs n = (distinct (map addr rs) \<and> (\<forall>a \<in> set (map addr rs). a < n))"

subsection \<open>TrackInfo updates: SetLayerSsrc, UpdateTrackInfo, UpdateVideoLayers\<close>

definition updateTrackInfoOfReceivers :: "MediaTrackReceiver \<Rightarrow> MediaTrackReceiver" where
  "updateTrackInfoOfReceivers t =
     emit (map (\<lambda>r. ReceiverUpdateTrackInfo (addr r) (trackInfo t)) (receivers t)) t"

text \<open>
  \<open>buffer.RidToSpatialLayer\<close>, \<open>buffer.InvalidLayerSpatial\<close> and
  \<open>buffer.SpatialLayerToVideoQuality\<close> are declared in a package that is not among the
  sources; they are parameters.
\<close>

record buffer_deps =
  RidToSpatialLayer :: "string \<Rightarrow> TrackInfo \<Rightarrow> int"
  InvalidLayerSpatial :: int
  SpatialLayerToVideoQuality :: "int \<Rightarrow> TrackInfo \<Rightarrow> VideoQuality"

text \<open>
  The scan of one codec's layers in \<open>SetLayerSsrc\<close>: it stops at the first layer of the
  quality, which gets the ssrc only if its own is 0.
\<close>

fun SetLayerSsrc_layers :: "VideoQuality \<Rightarrow> 32 word \<Rightarrow> VideoLayer list \<Rightarrow> VideoLayer list" where
  "SetLayerSsrc_layers quality ssrc [] = []"
| "SetLayerSsrc_layers quality ssrc (l # ls) =
     (if vl_Quality l = quality
      then (if vl_Ssrc l \<noteq> 0 then l # ls else l\<lparr>vl_Ssrc := ssrc\<rparr> # ls)
      else l # SetLayerSsrc_layers quality ssrc ls)"

text \<open>
  The scan of the codecs: it stops at the first codec whose mime matches; \<open>i\<close> is the
  index of the codec, and the top-level layers follow the codec at index 0.
\<close>

fun SetLayerSsrc_codecs ::
  "nat \<Rightarrow> string \<Rightarrow> VideoQuality \<Rightarrow> 32 word \<Rightarrow> SimulcastCodecInfo list \<Rightarrow> VideoLayer list \<Rightarrow>
   SimulcastCodecInfo list \<times> VideoLayer list" where
  "SetLayerSsrc_codecs i mime quality ssrc [] tiLayers = ([], tiLayers)"
| "SetLayerSsrc_codecs i mime quality ssrc (ci # cis) tiLayers =
     (if \<not> EqualFold (ci_MimeType ci) mime
      then (case SetLayerSsrc_codecs (Suc i) mime quality ssrc cis tiLayers of
              (cis', ls) \<Rightarrow> (ci # cis', ls))
      else (let layers = SetLayerSsrc_layers quality ssrc (ci_Layers ci)
            in (ci\<lparr>ci_Layers := layers\<rparr> # cis, if i = 0 then layers else tiLayers)))"

definition SetLayerSsrc ::
  "buffer_deps \<Rightarrow> string \<Rightarrow> string \<Rightarrow> 32 word \<Rightarrow> MediaTrackReceiver \<Rightarrow> MediaTrackReceiver" where
  "SetLayerSsrc buf mime rid ssrc t =
     (let ti = trackInfo t;
          layer0 = RidToSpatialLayer buf rid ti;
          layer = (if layer0 = InvalidLayerSpatial buf then 0 else layer0);
          quality = SpatialLayerToVideoQuality buf layer ti
      in case SetLayerSsrc_codecs 0 mime quality ssrc (ti_Codecs ti) (ti_Layers ti) of
           (cis, ls) \<Rightarrow>
             updateTrackInfoOfReceivers (t\<lparr>trackInfo := ti\<lparr>ti_Codecs := cis, ti_Layers := ls\<rparr>\<rparr>))"

text \<open>
  The inner loop of \<open>UpdateTrackInfo\<close> and of \<open>UpdateVideoLayers\<close>, for one new
  layer: the first origin layer of the same quality ends the scan, and gives its ssrc if
  that is not 0.
\<close>

fun keepOriginSsrc :: "VideoLayer list \<Rightarrow> VideoLayer \<Rightarrow> VideoLayer" where
  "keepOriginSsrc [] layer = layer"
| "keepOriginSsrc (originLayer # originLayers) layer =
     (if vl_Quality layer = vl_Quality originLayer
      then (if vl_Ssrc originLayer \<noteq> 0 then layer\<lparr>vl_Ssrc := vl_Ssrc originLayer\<rparr> else layer)
      else keepOriginSsrc originLayers layer)"

text \<open>The patch of one codec of the new info by the first origin codec of the same mime.\<close>

fun UpdateTrackInfo_codec :: "SimulcastCodecInfo list \<Rightarrow> SimulcastCodecInfo \<Rightarrow> SimulcastCodecInfo" where
  "UpdateTrackInfo_codec [] ci = ci"
| "UpdateTrackInfo_codec (originCi # originCis) ci =
     (if \<not> EqualFold (ci_MimeType ci) (ci_MimeType originCi)
      then UpdateTrackInfo_codec originCis ci
      else ci\<lparr>ci_Mid := (if ci_Mid originCi \<noteq> [] then ci_Mid originCi else ci_Mid ci),
              ci_Layers := map (keepOriginSsrc (ci_Layers originCi)) (ci_Layers ci)\<rparr>)"

definition UpdateTrackInfo :: "TrackInfo \<Rightarrow> MediaTrackReceiver \<Rightarrow> MediaTrackReceiver" where
  "UpdateTrackInfo ti t =
     (let codecs = map (UpdateTrackInfo_codec (ti_Codecs (trackInfo t))) (ti_Codecs ti);
          clonedInfo = ti\<lparr>ti_Codecs := codecs,
                         ti_Layers := (case codecs of [] \<Rightarrow> ti_Layers ti | ci # cis \<Rightarrow> ci_Layers ci)\<rparr>;
          updateMute = (ti_Muted (trackInfo t) \<noteq> ti_Muted clonedInfo);
          t1 = t\<lparr>trackInfo := clonedInfo\<rparr>;
          t2 = (if updateMute then SetMuted (ti_Muted clonedInfo) t1 else t1)
      in updateTrackInfoOfReceivers t2)"

definition UpdateVideoLayers :: "VideoLayer list \<Rightarrow> MediaTrackReceiver \<Rightarrow> MediaTrackReceiver" where
  "UpdateVideoLayers layers t =
     (let ti = trackInfo t;
          codecs = map (\<lambda>ci. ci\<lparr>ci_Layers := map (keepOriginSsrc (ci_Layers ci)) layers\<rparr>) (ti_Codecs ti);
          ti1 = ti\<lparr>ti_Codecs := codecs,
                  ti_Layers := (case codecs of [] \<Rightarrow> ti_Layers ti | ci # cis \<Rightarrow> ci_Layers ci)\<rparr>
      in emit [SubscriptionsUpdateVideoLayers] (updateTrackInfoOfReceivers (t\<lparr>trackInfo := ti1\<rparr>)))"

text \<open>
  The layer a pair (mime, quality) designates: the first layer of that quality in the
  first codec whose mime matches case-insensitively, as the scans above find it.
\<close>

definition codecsLayerSsrc :: "SimulcastCodecInfo list \<Rightarrow> string \<Rightarrow> VideoQuality \<Rightarrow> 32 word option" where
  "codecsLayerSsrc codecs mime quality =
     (case find (\<lambda>ci. EqualFold (ci_MimeType ci) mime) codecs of
        None \<Rightarrow> None
      | Some ci \<Rightarrow> map_option vl_Ssrc (find (\<lambda>l. vl_Quality l = quality) (ci_Layers ci)))"

definition layerSsrc :: "TrackInfo \<Rightarrow> string \<Rightarrow> VideoQuality \<Rightarrow> 32 word option" where
  "layerSsrc ti mime quality = codecsLayerSsrc (ti_Codecs ti) mime quality"

text \<open>
  No mime is repeated among the codecs (case-insensitively) and no quality among the
  layers of a codec: then every layer is the one its pair (mime, quality) designates.
\<close>

definition keys_unique :: "TrackInfo \<Rightarrow> bool" where
  "keys_unique ti =
     (distinct (map (\<lambda>ci. map toLower (ci_MimeType ci)) (ti_Codecs ti))
      \<and> (\<forall>ci \<in> set (ti_Codecs ti). distinct (map vl_Quality (ci_Layers ci))))"

datatype ssrc_call =
    CallSetLayerSsrc string string "32 word"
  | CallUpdateTrackInfo TrackInfo
  | CallUpdateVideoLayers "VideoLayer list"

fun ssrc_step :: "buffer_deps \<Rightarrow> ssrc_call \<Rightarrow> MediaTrackReceiver \<Rightarrow> MediaTrackReceiver" where
  "ssrc_step buf (CallSetLayerSsrc mime rid ssrc) t = SetLayerSsrc buf mime rid ssrc t"
| "ssrc_step buf (CallUpdateTrackInfo ti) t = UpdateTrackInfo ti t"
| "ssrc_step buf (CallUpdateVideoLayers layers) t = UpdateVideoLayers layers t"

text \<open>
  Whether a call carries a layer for the pair (mime, quality): \<open>SetLayerSsrc\<close> keeps
  every layer there is; the other two replace the layers by those they are given.
\<close>

fun carries :: "ssrc_call \<Rightarrow> string \<Rightarrow> VideoQuality \<Rightarrow> bool" where
  "carries (CallSetLayerSsrc m rid ssrc) mime quality = True"
| "carries (CallUpdateTrackInfo ti) mime quality = (layerSsrc ti mime quality \<noteq> None)"
| "carries (CallUpdateVideoLayers layers) mime quality = (\<exists>l \<in> set layers. vl_Quality l = quality)"

text \<open>A sequence of such calls, made one after the other.\<close>

definition ssrc_run :: "buffer_deps \<Rightarrow> MediaTrackReceiver \<Rightarrow> ssrc_call list \<Rightarrow> MediaTrackReceiver" where
  "ssrc_run buf t calls = foldl (\<lambda>s call. ssrc_step buf call s) t calls"

subsection \<open>GetQualityForDimension\<close>

text \<open>
  \<open>uint32(float32(requestedSize) * layerSelectionTolerance)\<close>, computed exactly. A
  float32 has 24 significant bits and rounds to nearest, ties to even:
  \<open>roundFloat32 n\<close> is the integer \<open>n\<close> so rounded. The constant 0.9 as a float32
  is 15099494 / 2^24. The product of two float32 values is the exact product rounded, and
  rounding commutes with the scaling by 2^24, so the product is
  \<open>roundFloat32 (roundFloat32 x * 15099494) / 2^24\<close>; the conversion to uint32
  drops the fraction.
\<close>

fun bitlen :: "nat \<Rightarrow> nat" where
  "bitlen n = (if n = 0 then 0 else Suc (bitlen (n div 2)))"

declare bitlen.simps [simp del]

definition roundFloat32 :: "nat \<Rightarrow> nat" where
  "roundFloat32 n =
     (if bitlen n \<le> 24 then n
      else (let e = bitlen n - 24;
                q = n div 2 ^ e;
                r = n mod 2 ^ e;
                half = 2 ^ (e - 1)
            in (if r > half \<or> (r = half \<and> odd q) then q + 1 else q) * 2 ^ e))"

definition layerSelectionTolerance :: nat where
  "layerSelectionTolerance = 15099494"

definition scaleByTolerance :: "32 word \<Rightarrow> 32 word" where
  "scaleByTolerance x =
     of_nat (roundFloat32 (roundFloat32 (unat x) * layerSelectionTolerance) div 2 ^ 24)"

text \<open>
  The loop over \<open>layerSizes\<close>, from index \<open>i\<close> on: \<open>quality\<close> is the value the
  variable has when the loop is entered, kept if there is nothing to iterate over.
\<close>

fun GetQualityForDimension_loop :: "nat \<Rightarrow> 32 word list \<Rightarrow> 32 word \<Rightarrow> VideoQuality \<Rightarrow> VideoQuality" where
  "GetQualityForDimension_loop i [] requestedSize quality = quality"
| "GetQualityForDimension_loop i [s] requestedSize quality = int i"
| "GetQualityForDimension_loop i (s # s' # rest) requestedSize quality =
     (if s \<ge> requestedSize \<and> s \<noteq> s' then int i
      else GetQualityForDimension_loop (Suc i) (s' # rest) requestedSize (int i))"

definition GetQualityForDimension :: "32 word \<Rightarrow> 32 word \<Rightarrow> MediaTrackReceiver \<Rightarrow> VideoQuality" where
  "GetQualityForDimension width height t =
     (let quality = VideoQuality_HIGH;
          ti = trackInfo t
      in if ti_Type ti = TrackType_AUDIO then quality
         else if ti_Height ti = 0 then quality
         else
           (let portrait = ti_Width ti < ti_Height ti;
                origSize = (if portrait then ti_Width ti else ti_Height ti);
                requestedSize = (if portrait then width else height);
                providedSizes = map vl_Height (ti_Layers ti);
                layerSizes = (if length providedSizes > 0 then sort providedSizes
                              else [180, 360, origSize]);
                requestedSize1 = (if length providedSizes > 0 then height else requestedSize);
                requestedSize2 = scaleByTolerance requestedSize1
            in GetQualityForDimension_loop 0 layerSizes requestedSize2 quality))"

text \<open>
  The stopping condition of the loop at index \<open>i\<close>: the last index, or a size that
  reaches the target and differs from the next one.
\<close>

definition stops_at :: "32 word list \<Rightarrow> 32 word \<Rightarrow> nat \<Rightarrow> bool" where
  "stops_at layerSizes target i =
     (i = length layerSizes - 1 \<or> (layerSizes ! i \<ge> target \<and> layerSizes ! i \<noteq> layerSizes ! (i + 1)))"

text \<open>
  The selection as the specification words it, to compare with: the requested size is
  the width for a portrait TrackInfo and the height otherwise, whether or not there are
  layers; the default sizes end with the original height; the target is nine tenths of
  the requested size.
\<close>

definition GetQualityForDimension_as_specified ::
  "32 word \<Rightarrow> 32 word \<Rightarrow> MediaTrackReceiver \<Rightarrow> VideoQuality" where
  "GetQualityForDimension_as_specified width height t =
     (let ti = trackInfo t
      in if ti_Type ti = TrackType_AUDIO then VideoQuality_HIGH
         else if ti_Height ti = 0 then VideoQuality_HIGH
         else
           (let requested_size = (if ti_Width ti < ti_Height ti then width else height);
                layer_sizes = (if ti_Layers ti \<noteq> [] then sort (map vl_Height (ti_Layers ti))
                               else [180, 360, ti_Height ti]);
                target = of_nat (unat requested_size * 9 div 10)
            in GetQualityForDimension_loop 0 layer_sizes target VideoQuality_HIGH))"

section \<open>Example values\<close>

definition codec_VP8 :: RTPCodecParameters where
  "codec_VP8 = \<lparr>MimeType = ''video/VP8'', ClockRate = 90000\<rparr>"

definition codec_H264 :: RTPCodecParameters where
  "codec_H264 = \<lparr>MimeType = ''video/H264'', ClockRate = 90000\<rparr>"

definition codec_AV1 :: RTPCodecParameters where
  "codec_AV1 = \<lparr>MimeType = ''video/AV1'', ClockRate = 90000\<rparr>"

definition example_sfu :: sfu_deps where
  "example_sfu = \<lparr>IsSvcCodec = (\<lambda>m. EqualFold m ''video/av1''), ExtensionURI = ''urn:dd''\<rparr>"

definition example_params :: MediaTrackReceiverParams where
  "example_params = \<lparr>ParticipantID = ''PA_pub'', ActiveREDEncoding = True\<rparr>"

definition example_layers :: "VideoLayer list" where
  "example_layers =
     [\<lparr>vl_Quality = VideoQuality_LOW, vl_Width = 320, vl_Height = 180, vl_Ssrc = 0\<rparr>,
      \<lparr>vl_Quality = VideoQuality_MEDIUM, vl_Width = 640, vl_Height = 360, vl_Ssrc = 0\<rparr>,
      \<lparr>vl_Quality = VideoQuality_HIGH, vl_Width = 1280, vl_Height = 720, vl_Ssrc = 0\<rparr>]"

definition example_trackInfo :: TrackInfo where
  "example_trackInfo =
     \<lparr>ti_Sid = ''TR_cam'', ti_Type = TrackType_VIDEO, ti_Muted = False,
      ti_Width = 1280, ti_Height = 720, ti_MimeType = [], ti_Mid = [],
      ti_Codecs = [\<lparr>ci_MimeType = ''video/VP8'', ci_Mid = [], ci_Cid = ''c0'', ci_Layers = example_layers\<rparr>,
                   \<lparr>ci_MimeType = ''video/H264'', ci_Mid = [], ci_Cid = ''c1'', ci_Layers = example_layers\<rparr>],
      ti_Layers = example_layers, ti_DisableRed = False\<rparr>"

definition example_new :: MediaTrackReceiver where
  "example_new = NewMediaTrackReceiver example_params example_trackInfo"

text \<open>Three announced codecs, none published yet: three Dummy slots at priorities 0, 1, 2.\<close>

definition example_seeded :: MediaTrackReceiver where
  "example_seeded =
     SetPotentialCodecs example_sfu [codec_VP8, codec_H264, codec_AV1] [''urn:dd'', ''urn:mid''] example_new"

text \<open>The VP8 pipeline arrives: the first Dummy slot is upgraded (scenario 1 of the spec).\<close>

definition example_upgraded :: MediaTrackReceiver where
  "example_upgraded = SetupReceiver (WebRTCReceiver 7 codec_VP8) 0 ''0'' example_seeded"

definition example_subscriber_deps :: subscriber_deps where
  "example_subscriber_deps =
     \<lparr>Subscriptions_AddSubscriber = (\<lambda>sub wr. Inr 1), PackStreamID = (\<lambda>p t. p @ ''|'' @ t)\<rparr>"

definition example_subscriber :: LocalParticipant where
  "example_subscriber = \<lparr>sub_ID = ''PA_sub'', SupportsPackedStreamId = True\<rparr>"

definition example_hooked :: MediaTrackReceiver where
  "example_hooked = foldl (\<lambda>s f. AddOnClose f s) example_new [Some 11, None, Some 12]"

text \<open>
  VP8 cleared from the three seeded slots: the AV1 slot (priority 2) now stands before the
  H264 slot (priority 1).
\<close>

definition example_cleared :: MediaTrackReceiver where
  "example_cleared = ClearReceiver ''video/vp8'' False example_seeded"

definition example_setup_calls :: "setup_call list" where
  "example_setup_calls =
     [CallSetPotentialCodecs [codec_VP8, codec_H264] [''urn:dd'', ''urn:mid''],
      CallSetupReceiver (WebRTCReceiver 7 codec_VP8) 0 ''0'']"

text \<open>Two real receivers of the same mime, no Dummy announced.\<close>

definition example_colliding_calls :: "setup_call list" where
  "example_colliding_calls =
     [CallSetupReceiver (WebRTCReceiver 7 codec_VP8) 0 ''0'',
      CallSetupReceiver (WebRTCReceiver 8 codec_VP8) 0 ''0'']"

definition example_buffer :: buffer_deps where
  "example_buffer =
     \<lparr>RidToSpatialLayer = (\<lambda>rid ti. if rid = ''q'' then 0 else if rid = ''h'' then 1
                                     else if rid = ''f'' then 2 else - 1),
      InvalidLayerSpatial = - 1,
      SpatialLayerToVideoQuality = (\<lambda>layer ti. layer)\<rparr>"

text \<open>The ssrc 1111 announced for the low layer of VP8.\<close>

definition example_ssrc_set :: MediaTrackReceiver where
  "example_ssrc_set = SetLayerSsrc example_buffer ''video/vp8'' ''q'' 1111 example_new"

text \<open>A TrackInfo whose only codec lists the quality low twice, the second time with an ssrc.\<close>

definition example_repeated :: MediaTrackReceiver where
  "example_repeated =
     NewMediaTrackReceiver example_params
       (example_trackInfo\<lparr>ti_Codecs :=
          [\<lparr>ci_MimeType = ''video/VP8'', ci_Mid = [], ci_Cid = ''c0'',
            ci_Layers = [\<lparr>vl_Quality = VideoQuality_LOW, vl_Width = 320, vl_Height = 180, vl_Ssrc = 0\<rparr>,
                         \<lparr>vl_Quality = VideoQuality_LOW, vl_Width = 320, vl_Height = 180, vl_Ssrc = 5\<rparr>]\<rparr>]\<rparr>)"

definition example_low_layers :: "VideoLayer list" where
  "example_low_layers =
     [\<lparr>vl_Quality = VideoQuality_LOW, vl_Width = 320, vl_Height = 180, vl_Ssrc = 9\<rparr>,
      \<lparr>vl_Quality = VideoQuality_LOW, vl_Width = 320, vl_Height = 180, vl_Ssrc = 9\<rparr>]"

definition example_ssrc_calls :: "ssrc_call list" where
  "example_ssrc_calls =
     [CallSetLayerSsrc ''video/vp8'' ''q'' 2222,
      CallUpdateTrackInfo example_trackInfo,
      CallUpdateVideoLayers example_low_layers]"

text \<open>A portrait track (720 by 1280) with three layers, given by their heights.\<close>

definition example_portrait_layers :: MediaTrackReceiver where
  "example_portrait_layers =
     NewMediaTrackReceiver example_params
       (example_trackInfo\<lparr>ti_Width := 720, ti_Height := 1280,
          ti_Layers :=
            [\<lparr>vl_Quality = VideoQuality_LOW, vl_Width = 180, vl_Height = 320, vl_Ssrc = 0\<rparr>,
             \<lparr>vl_Quality = VideoQuality_MEDIUM, vl_Width = 360, vl_Height = 640, vl_Ssrc = 0\<rparr>,
             \<lparr>vl_Quality = VideoQuality_HIGH, vl_Width = 720, vl_Height = 1280, vl_Ssrc = 0\<rparr>]\<rparr>)"

text \<open>A portrait track (360 by 640) without layers.\<close>

definition example_portrait_plain :: MediaTrackReceiver where
  "example_portrait_plain =
     NewMediaTrackReceiver example_params
       (example_trackInfo\<lparr>ti_Width := 360, ti_Height := 640, ti_Layers := []\<rparr>)"

text \<open>A landscape track with four layers.\<close>

definition example_four_layers :: MediaTrackReceiver where
  "example_four_layers =
     NewMediaTrackReceiver example_params
       (example_trackInfo\<lparr>ti_Layers :=
            \<lparr>vl_Quality = VideoQuality_LOW, vl_Width = 160, vl_Height = 90, vl_Ssrc = 0\<rparr>
            # example_layers\<rparr>)"

section \<open>Evaluation\<close>

lemma toLower_Char:
  "toLower (Char b0 b1 b2 b3 b4 b5 b6 b7) =
     (if \<not> b7 \<and> b6 \<and> \<not> b5 \<and> (b0 \<or> b1 \<or> b2 \<or> b3 \<or> b4) \<and> \<not> (b4 \<and> b3 \<and> (b2 \<or> (b1 \<and> b0)))
      then Char b0 b1 b2 b3 b4 True b6 b7 else Char b0 b1 b2 b3 b4 b5 b6 b7)"
  apply (cases b0; cases b1; cases b2; cases b3; cases b4; cases b5; cases b6; cases b7)
  apply (simp_all add: toLower_def char_of_def bit_iff_odd)
  done

lemma EqualFold_key: "EqualFold a b = (map toLower a = map toLower b)"
  by (simp add: EqualFold_def)

lemmas eval_defs =
  EqualFold_def toLower_Char slotMime_def NewDummyReceiver_def NewMediaTrackReceiver_def
  SetPotentialCodecs_def SetupReceiver_def SetupReceiver_trackInfo_def
  ClearReceiver_def ClearReceiver_slots_def ClearAllReceivers_def emit_def
  SetClosing_def Close_def TryClose_def AddOnClose_def upgradedDummy_def
  Let_def numeral_2_eq_2 numeral_3_eq_3

lemma example_new_eval:
  "example_new =
     \<lparr>params = example_params, receivers = [], trackInfo = example_trackInfo,
      potentialCodecs = [], state = mediaTrackReceiverStateOpen, onSetupReceiver = None,
      onClose = [], next_addr = 0, events = []\<rparr>"
  by (simp add: example_new_def NewMediaTrackReceiver_def example_trackInfo_def)

lemma example_seeded_eval:
  "example_seeded =
     \<lparr>params = example_params,
      receivers =
        [\<lparr>addr = 0, TrackReceiver = DummyReceiver codec_VP8 [''urn:mid''] None, priority = 0\<rparr>,
         \<lparr>addr = 1, TrackReceiver = DummyReceiver codec_H264 [''urn:mid''] None, priority = 1\<rparr>,
         \<lparr>addr = 2, TrackReceiver = DummyReceiver codec_AV1 [''urn:dd'', ''urn:mid''] None, priority = 2\<rparr>],
      trackInfo = example_trackInfo,
      potentialCodecs = [codec_VP8, codec_H264, codec_AV1],
      state = mediaTrackReceiverStateOpen, onSetupReceiver = None,
      onClose = [], next_addr = 3, events = []\<rparr>"
  by (simp add: example_seeded_def example_new_eval SetPotentialCodecs_def EqualFold_def
      toLower_Char slotMime_def NewDummyReceiver_def codec_VP8_def codec_H264_def codec_AV1_def
      example_sfu_def Let_def numeral_2_eq_2 numeral_3_eq_3)

section \<open>ClearReceiver\<close>

lemma ClearReceiver_find_None:
  "(ClearReceiver_find mime rs = None) = (\<forall>r \<in> set rs. \<not> EqualFold (slotMime r) mime)"
  by (induction rs) auto

lemma ClearReceiver_find_Some:
  "ClearReceiver_find mime rs = Some idx \<Longrightarrow>
     \<exists>pre r post. rs = pre @ r # post \<and> length pre = idx
        \<and> (\<forall>p \<in> set pre. \<not> EqualFold (slotMime p) mime) \<and> EqualFold (slotMime r) mime"
proof (induction rs arbitrary: idx)
  case Nil
  then show ?case by simp
next
  case (Cons a rs)
  show ?case
  proof (cases "EqualFold (slotMime a) mime")
    case True
    with Cons.prems have "idx = 0" by simp
    with True show ?thesis by (intro exI [of _ "[]"]) auto
  next
    case False
    with Cons.prems obtain j where j: "ClearReceiver_find mime rs = Some j" "idx = Suc j"
      by auto
    from Cons.IH [OF j(1)] obtain pre r post where
      "rs = pre @ r # post" "length pre = j"
      "\<forall>p \<in> set pre. \<not> EqualFold (slotMime p) mime" "EqualFold (slotMime r) mime"
      by blast
    with False j(2) show ?thesis
      by (intro exI [of _ "a # pre"] exI [of _ r] exI [of _ post]) auto
  qed
qed

lemma swap_remove:
  "butlast ((pre @ r # post)[length pre := last (pre @ r # post)]) =
     (if post = [] then pre else pre @ last post # butlast post)"
  by (cases post rule: rev_cases) (auto simp: list_update_append butlast_append)

lemma mset_swap_remove:
  "mset (if post = [] then pre else pre @ last post # butlast post) = mset (pre @ post)"
  by (cases post rule: rev_cases) auto

text \<open>
  C10. \<open>ClearReceiver(mime, willBeResumed)\<close> removes at most one slot. Either no slot
  matches \<open>mime\<close> case-insensitively and the slot list is unchanged; or the list is
  \<open>pre @ r # post\<close> where \<open>r\<close> is the first matching slot, and afterwards it holds
  exactly the slots of \<open>pre\<close> and \<open>post\<close>: \<open>pre\<close> in place, then the last slot of
  \<open>post\<close> moved into the position of \<open>r\<close>, then the rest of \<open>post\<close>. So every other
  slot remains a member and only the relative order may change.
\<close>

theorem ClearReceiver_removes_first_match:
  "((\<forall>r \<in> set (receivers t). \<not> EqualFold (slotMime r) mime)
      \<and> receivers (ClearReceiver mime willBeResumed t) = receivers t)
   \<or> (\<exists>pre r post.
         receivers t = pre @ r # post
       \<and> (\<forall>p \<in> set pre. \<not> EqualFold (slotMime p) mime)
       \<and> EqualFold (slotMime r) mime
       \<and> receivers (ClearReceiver mime willBeResumed t) =
           (if post = [] then pre else pre @ last post # butlast post)
       \<and> mset (receivers (ClearReceiver mime willBeResumed t)) = mset (pre @ post))"
proof (cases "ClearReceiver_find mime (receivers t)")
  case None
  then have "\<forall>r \<in> set (receivers t). \<not> EqualFold (slotMime r) mime"
    by (simp add: ClearReceiver_find_None)
  moreover from None have "receivers (ClearReceiver mime willBeResumed t) = receivers t"
    by (simp add: ClearReceiver_def ClearReceiver_slots_def emit_def)
  ultimately show ?thesis by blast
next
  case (Some idx)
  from ClearReceiver_find_Some [OF Some] obtain pre r post where
    s: "receivers t = pre @ r # post" "length pre = idx"
       "\<forall>p \<in> set pre. \<not> EqualFold (slotMime p) mime" "EqualFold (slotMime r) mime"
    by blast
  have "receivers (ClearReceiver mime willBeResumed t) =
          butlast ((pre @ r # post)[length pre := last (pre @ r # post)])"
    using Some s(1,2) by (simp add: ClearReceiver_def ClearReceiver_slots_def emit_def)
  then have e: "receivers (ClearReceiver mime willBeResumed t) =
          (if post = [] then pre else pre @ last post # butlast post)"
    by (simp only: swap_remove)
  have "mset (receivers (ClearReceiver mime willBeResumed t)) = mset (pre @ post)"
    unfolding e by (rule mset_swap_remove)
  with s e show ?thesis by blast
qed

text \<open>
  The three seeded slots, cleared of VP8: the first slot matches, the AV1 slot moves into
  its place. Cleared of a mime no slot has: nothing changes.
\<close>

theorem ClearReceiver_removes_first_match_witness:
  "EqualFold (slotMime (receivers example_seeded ! 0)) ''video/vp8''
   \<and> map addr (receivers (ClearReceiver ''video/vp8'' False example_seeded)) = [2, 1]
   \<and> receivers (ClearReceiver ''video/vp9'' False example_seeded) = receivers example_seeded"
  using ClearReceiver_removes_first_match [of example_seeded "''video/vp8''" False]
    ClearReceiver_removes_first_match [of example_seeded "''video/vp9''" False]
  by (simp add: example_seeded_eval eval_defs codec_VP8_def codec_H264_def codec_AV1_def)

section \<open>SetupReceiver on a track that is not open\<close>

text \<open>
  C9. When \<open>SetupReceiver\<close> is called while the state is not Open, the object after the
  call is the object before it: slot list (no Dummy is upgraded, nothing is appended),
  TrackInfo and state are unchanged, and no call of the \<open>onSetupReceiver\<close> hook is
  added to the event log. The Go method has no result, so there is no error to signal.
\<close>

theorem SetupReceiver_not_open:
  "state t \<noteq> mediaTrackReceiverStateOpen \<Longrightarrow> SetupReceiver receiver prio mid t = t"
  by (simp add: SetupReceiver_def)

theorem SetupReceiver_not_open_witness:
  "state (SetClosing (OnSetupReceiver (Some 5) example_seeded)) \<noteq> mediaTrackReceiverStateOpen
   \<and> SetupReceiver (WebRTCReceiver 7 codec_VP8) 0 ''0'' (SetClosing (OnSetupReceiver (Some 5) example_seeded))
       = SetClosing (OnSetupReceiver (Some 5) example_seeded)"
proof -
  have h: "state (SetClosing (OnSetupReceiver (Some 5) example_seeded)) \<noteq> mediaTrackReceiverStateOpen"
    by (simp add: example_seeded_eval SetClosing_def OnSetupReceiver_def)
  from h SetupReceiver_not_open [OF h] show ?thesis by simp
qed

section \<open>AddSubscriber: the two failures\<close>

text \<open>
  C5. \<open>AddSubscriber\<close> returns \<open>ErrNotOpen\<close> whenever the state is not Open, and
  \<open>ErrNoReceiver\<close> whenever the state is Open and the slot list is empty. In both
  cases the result is the error alone (no SubscribedTrack), and the object, with its log
  of calls to the subscriptions collaborator, is unchanged.
\<close>

theorem AddSubscriber_errors:
  "(state t \<noteq> mediaTrackReceiverStateOpen \<longrightarrow>
      AddSubscriber deps sub t = (Inl ErrNotOpen, t))
   \<and> (state t = mediaTrackReceiverStateOpen \<and> receivers t = [] \<longrightarrow>
      AddSubscriber deps sub t = (Inl ErrNoReceiver, t))"
  by (simp add: AddSubscriber_def)

text \<open>Scenarios 2 and 3 of the spec: subscribe without receivers, subscribe after close.\<close>

theorem AddSubscriber_errors_witness:
  "state (Close example_seeded) \<noteq> mediaTrackReceiverStateOpen
   \<and> AddSubscriber example_subscriber_deps example_subscriber (Close example_seeded)
       = (Inl ErrNotOpen, Close example_seeded)
   \<and> state example_new = mediaTrackReceiverStateOpen \<and> receivers example_new = []
   \<and> AddSubscriber example_subscriber_deps example_subscriber example_new
       = (Inl ErrNoReceiver, example_new)"
  using AddSubscriber_errors [of "Close example_seeded" example_subscriber_deps example_subscriber]
    AddSubscriber_errors [of example_new example_subscriber_deps example_subscriber]
  by (simp add: example_seeded_eval example_new_eval Close_def emit_def)

section \<open>TryClose\<close>

text \<open>
  C4. \<open>TryClose\<close> returns true, changing nothing, when the state is already Closed;
  otherwise it returns false, changing nothing, when some slot's receiver is a
  DummyReceiver whose delegate is set; and otherwise it performs \<open>Close\<close> and returns
  true.
\<close>

theorem TryClose_cases:
  "(state t = mediaTrackReceiverStateClosed \<longrightarrow> TryClose t = (True, t))
   \<and> (state t \<noteq> mediaTrackReceiverStateClosed
        \<and> (\<exists>r \<in> set (receivers t). isDummy (TrackReceiver r) \<and> Receiver (TrackReceiver r) \<noteq> None)
      \<longrightarrow> TryClose t = (False, t))
   \<and> (state t \<noteq> mediaTrackReceiverStateClosed
        \<and> \<not> (\<exists>r \<in> set (receivers t). isDummy (TrackReceiver r) \<and> Receiver (TrackReceiver r) \<noteq> None)
      \<longrightarrow> TryClose t = (True, Close t))"
  by (auto simp: TryClose_def list_ex_iff upgradedDummy_def)

lemma example_upgraded_eval:
  "state example_upgraded = mediaTrackReceiverStateOpen
   \<and> receivers example_upgraded =
        [\<lparr>addr = 0, TrackReceiver = DummyReceiver codec_VP8 [''urn:mid''] (Some (WebRTCReceiver 7 codec_VP8)),
           priority = 0\<rparr>,
         \<lparr>addr = 1, TrackReceiver = DummyReceiver codec_H264 [''urn:mid''] None, priority = 1\<rparr>,
         \<lparr>addr = 2, TrackReceiver = DummyReceiver codec_AV1 [''urn:dd'', ''urn:mid''] None, priority = 2\<rparr>]"
  by (simp add: example_upgraded_def example_seeded_eval SetupReceiver_def EqualFold_def
      toLower_Char slotMime_def codec_VP8_def codec_H264_def codec_AV1_def Let_def)

text \<open>
  Scenario 6 of the spec: with an upgraded Dummy, \<open>TryClose\<close> is false and the state
  stays Open; after \<open>ClearAllReceivers\<close> it closes; once Closed it is true again.
\<close>

theorem TryClose_cases_witness:
  "TryClose example_upgraded = (False, example_upgraded)
   \<and> state example_upgraded = mediaTrackReceiverStateOpen
   \<and> TryClose (ClearAllReceivers False example_upgraded) = (True, Close (ClearAllReceivers False example_upgraded))
   \<and> state (Close (ClearAllReceivers False example_upgraded)) = mediaTrackReceiverStateClosed
   \<and> TryClose (Close example_upgraded) = (True, Close example_upgraded)"
  using TryClose_cases [of example_upgraded]
    TryClose_cases [of "ClearAllReceivers False example_upgraded"]
    TryClose_cases [of "Close example_upgraded"]
  by (simp add: example_upgraded_eval ClearAllReceivers_def Close_def emit_def)

section \<open>Close and the on-close hooks\<close>

lemma onClose_AddOnClose_fold:
  "onClose (foldl (\<lambda>s f. AddOnClose f s) t fs) = onClose t @ map the (filter (\<lambda>f. f \<noteq> None) fs)"
  by (induction fs arbitrary: t) (auto simp: AddOnClose_def split: option.splits)

text \<open>
  C7. \<open>Close\<close> is idempotent. From any state that is not Closed it moves the state to
  Closed and then calls every registered hook once, in the order of the list
  \<open>onClose\<close>, each call observing the state Closed; in the state Closed it changes
  nothing and calls nothing, so a second \<open>Close\<close> adds nothing to the first. The list
  \<open>onClose\<close> holds the hooks in the order \<open>AddOnClose\<close> was called with them (a nil
  hook is not registered).
\<close>

theorem Close_idempotent:
  "(state t \<noteq> mediaTrackReceiverStateClosed \<longrightarrow>
      state (Close t) = mediaTrackReceiverStateClosed
    \<and> events (Close t) =
        events t @ map (\<lambda>f. CallOnClose f mediaTrackReceiverStateClosed) (onClose t))
   \<and> (state t = mediaTrackReceiverStateClosed \<longrightarrow> Close t = t)
   \<and> Close (Close t) = Close t
   \<and> onClose (foldl (\<lambda>s f. AddOnClose f s) t fs) =
       onClose t @ map the (filter (\<lambda>f. f \<noteq> None) fs)"
  by (simp add: Close_def emit_def Let_def onClose_AddOnClose_fold)

theorem Close_idempotent_witness:
  "state example_hooked \<noteq> mediaTrackReceiverStateClosed
   \<and> state (Close example_hooked) = mediaTrackReceiverStateClosed
   \<and> events (Close example_hooked) =
       [CallOnClose 11 mediaTrackReceiverStateClosed, CallOnClose 12 mediaTrackReceiverStateClosed]
   \<and> events (Close (Close example_hooked)) = events (Close example_hooked)"
  using Close_idempotent [of example_hooked "[]"] Close_idempotent [of example_new "[Some 11, None, Some 12]"]
  by (simp add: example_hooked_def example_new_eval AddOnClose_def Close_def emit_def)

section \<open>The life cycle only moves forward\<close>

lemma lifecycle_step_closed:
  "state t = mediaTrackReceiverStateClosed \<Longrightarrow> state (lifecycle_step c t) = mediaTrackReceiverStateClosed"
  by (cases c) (auto simp: SetClosing_def Close_def TryClose_def)

lemma lifecycle_step_closing:
  "state t = mediaTrackReceiverStateClosing \<Longrightarrow>
     state (lifecycle_step c t) \<in> {mediaTrackReceiverStateClosing, mediaTrackReceiverStateClosed}"
  by (cases c) (auto simp: SetClosing_def Close_def TryClose_def emit_def Let_def)

lemma trace_closed:
  "state t = mediaTrackReceiverStateClosed \<Longrightarrow>
     remdups_adj (state_trace t cs) = [mediaTrackReceiverStateClosed]"
proof (induction cs arbitrary: t)
  case Nil
  then show ?case by simp
next
  case (Cons c cs)
  from Cons.IH [OF lifecycle_step_closed [OF Cons.prems, of c]] Cons.prems
  show ?case by (simp add: remdups_adj_Cons)
qed

lemma trace_closing:
  "state t = mediaTrackReceiverStateClosing \<Longrightarrow>
     remdups_adj (state_trace t cs) \<in>
       {[mediaTrackReceiverStateClosing],
        [mediaTrackReceiverStateClosing, mediaTrackReceiverStateClosed]}"
proof (induction cs arbitrary: t)
  case Nil
  then show ?case by simp
next
  case (Cons c cs)
  from lifecycle_step_closing [OF Cons.prems, of c]
  consider "state (lifecycle_step c t) = mediaTrackReceiverStateClosing"
    | "state (lifecycle_step c t) = mediaTrackReceiverStateClosed" by auto
  then show ?case
  proof cases
    case 1
    from Cons.IH [OF 1] Cons.prems show ?thesis by (auto simp: remdups_adj_Cons)
  next
    case 2
    from trace_closed [OF 2, of cs] Cons.prems show ?thesis by (simp add: remdups_adj_Cons)
  qed
qed

text \<open>
  C8, as the code has it. For every sequence of \<open>SetClosing\<close>, \<open>Close\<close> and
  \<open>TryClose\<close> calls on an object in the state Open, the sequence of distinct states it
  passes through is one of Open; Open, Closing; Open, Closed; Open, Closing, Closed: it
  only moves forward and never back, and Closing may be skipped.
\<close>

theorem state_trace_forward:
  "state t = mediaTrackReceiverStateOpen \<Longrightarrow>
     remdups_adj (state_trace t cs) \<in>
       {[mediaTrackReceiverStateOpen],
        [mediaTrackReceiverStateOpen, mediaTrackReceiverStateClosing],
        [mediaTrackReceiverStateOpen, mediaTrackReceiverStateClosed],
        [mediaTrackReceiverStateOpen, mediaTrackReceiverStateClosing, mediaTrackReceiverStateClosed]}"
proof (induction cs arbitrary: t)
  case Nil
  then show ?case by simp
next
  case (Cons c cs)
  consider "state (lifecycle_step c t) = mediaTrackReceiverStateOpen"
    | "state (lifecycle_step c t) = mediaTrackReceiverStateClosing"
    | "state (lifecycle_step c t) = mediaTrackReceiverStateClosed"
    by (cases "state (lifecycle_step c t)") auto
  then show ?case
  proof cases
    case 1
    from Cons.IH [OF 1] Cons.prems show ?thesis by (auto simp: remdups_adj_Cons)
  next
    case 2
    from trace_closing [OF 2, of cs] Cons.prems show ?thesis by (auto simp: remdups_adj_Cons)
  next
    case 3
    from trace_closed [OF 3, of cs] Cons.prems show ?thesis by (simp add: remdups_adj_Cons)
  qed
qed

theorem state_trace_forward_witness:
  "state example_upgraded = mediaTrackReceiverStateOpen
   \<and> remdups_adj (state_trace example_upgraded [CallTryClose, CallSetClosing, CallSetClosing, CallClose, CallTryClose])
       = [mediaTrackReceiverStateOpen, mediaTrackReceiverStateClosing, mediaTrackReceiverStateClosed]"
proof -
  have h: "state example_upgraded = mediaTrackReceiverStateOpen"
    by (simp add: example_upgraded_eval)
  from h state_trace_forward [OF h, of "[CallTryClose, CallSetClosing, CallSetClosing, CallClose, CallTryClose]"]
  show ?thesis
    by (simp add: example_upgraded_eval TryClose_def SetClosing_def Close_def emit_def upgradedDummy_def)
qed

text \<open>
  C8 as stated fails: \<open>Close\<close> on a new (Open) object moves it to Closed at once, and
  Open, Closed is not a prefix of Open, Closing, Closed.
\<close>

theorem state_trace_not_prefix:
  "remdups_adj (state_trace example_new [CallClose]) =
     [mediaTrackReceiverStateOpen, mediaTrackReceiverStateClosed]
   \<and> \<not> prefix (remdups_adj (state_trace example_new [CallClose]))
         [mediaTrackReceiverStateOpen, mediaTrackReceiverStateClosing, mediaTrackReceiverStateClosed]"
  by (simp add: example_new_eval Close_def emit_def)

section \<open>The slot list under SetupReceiver and SetPotentialCodecs\<close>

lemma Codec_Upgrade: "Codec (Upgrade receiver x) = Codec x"
  by (cases "(receiver, x)" rule: Upgrade.cases) auto

lemma isDummy_Upgrade: "isDummy (Upgrade receiver x) = isDummy x"
  by (cases "(receiver, x)" rule: Upgrade.cases) auto

lemma slotMime_Upgrade: "slotMime (r\<lparr>TrackReceiver := Upgrade receiver (TrackReceiver r)\<rparr>) = slotMime r"
  by (simp add: slotMime_def Codec_Upgrade)

lemma upgrade_addr: "map addr (fst (SetupReceiver_upgrade receiver rs)) = map addr rs"
  by (induction rs) (auto split: prod.splits)

lemma upgrade_slotMime: "map slotMime (fst (SetupReceiver_upgrade receiver rs)) = map slotMime rs"
  by (induction rs) (auto split: prod.splits simp: slotMime_Upgrade)

lemma upgrade_flag:
  "snd (SetupReceiver_upgrade receiver rs) =
     (\<exists>r \<in> set rs. EqualFold (slotMime r) (MimeType (Codec receiver)) \<and> isDummy (TrackReceiver r))"
  by (induction rs) (auto split: prod.splits)

lemma upgrade_same_slot: "list_all2 same_slot rs (fst (SetupReceiver_upgrade receiver rs))"
  by (induction rs) (auto split: prod.splits simp: same_slot_def isDummy_Upgrade Codec_Upgrade list_all2_refl)

lemma upgrade_split:
  "snd (SetupReceiver_upgrade receiver rs) \<Longrightarrow>
     \<exists>pre d post. rs = pre @ d # post
       \<and> (\<forall>p \<in> set pre. \<not> (EqualFold (slotMime p) (MimeType (Codec receiver)) \<and> isDummy (TrackReceiver p)))
       \<and> EqualFold (slotMime d) (MimeType (Codec receiver)) \<and> isDummy (TrackReceiver d)
       \<and> fst (SetupReceiver_upgrade receiver rs) =
           pre @ d\<lparr>TrackReceiver := Upgrade receiver (TrackReceiver d)\<rparr> # post"
proof (induction rs)
  case Nil
  then show ?case by simp
next
  case (Cons a rs)
  show ?case
  proof (cases "EqualFold (slotMime a) (MimeType (Codec receiver)) \<and> isDummy (TrackReceiver a)")
    case True
    then show ?thesis by (intro exI [of _ "[]"] exI [of _ a] exI [of _ rs]) simp
  next
    case False
    with Cons.prems have "snd (SetupReceiver_upgrade receiver rs)"
      by (auto split: prod.splits)
    from Cons.IH [OF this] obtain pre d post where
      s: "rs = pre @ d # post"
      "\<forall>p \<in> set pre. \<not> (EqualFold (slotMime p) (MimeType (Codec receiver)) \<and> isDummy (TrackReceiver p))"
      "EqualFold (slotMime d) (MimeType (Codec receiver))" "isDummy (TrackReceiver d)"
      "fst (SetupReceiver_upgrade receiver rs) =
           pre @ d\<lparr>TrackReceiver := Upgrade receiver (TrackReceiver d)\<rparr> # post"
      by blast
    with False show ?thesis
      by (intro exI [of _ "a # pre"] exI [of _ d] exI [of _ post]) (auto split: prod.splits)
  qed
qed

lemma receivers_SetupReceiver:
  "state t = mediaTrackReceiverStateOpen \<Longrightarrow>
     receivers (SetupReceiver receiver prio mid t) =
       sort_key priority
         (if snd (SetupReceiver_upgrade receiver (receivers t))
          then fst (SetupReceiver_upgrade receiver (receivers t))
          else fst (SetupReceiver_upgrade receiver (receivers t))
                 @ [\<lparr>addr = next_addr t, TrackReceiver = receiver, priority = prio\<rparr>])"
  by (auto simp: SetupReceiver_def Let_def emit_def split: prod.splits option.splits)

lemma next_addr_SetupReceiver:
  "state t = mediaTrackReceiverStateOpen \<Longrightarrow>
     next_addr (SetupReceiver receiver prio mid t) =
       (if snd (SetupReceiver_upgrade receiver (receivers t)) then next_addr t else Suc (next_addr t))"
  by (auto simp: SetupReceiver_def Let_def emit_def split: prod.splits option.splits)

lemma distinct_map_sort_key: "distinct (map f (sort_key k xs)) = distinct (map f xs)"
proof -
  have "mset (map f (sort_key k xs)) = mset (map f xs)" by simp
  then show ?thesis by (rule mset_eq_imp_distinct_iff)
qed

lemma slots_wf_sort_key: "slots_wf (sort_key k rs) n = slots_wf rs n"
  by (simp add: slots_wf_def distinct_map_sort_key)

lemma no_mime_duplicates_sort_key: "no_mime_duplicates (sort_key k rs) = no_mime_duplicates rs"
  by (simp add: no_mime_duplicates_def distinct_map_sort_key)

lemma slots_wf_upgrade: "slots_wf (fst (SetupReceiver_upgrade receiver rs)) n = slots_wf rs n"
  by (simp only: slots_wf_def upgrade_addr)

lemma slots_wf_append:
  "slots_wf rs n \<Longrightarrow> slots_wf (rs @ [\<lparr>addr = n, TrackReceiver = x, priority = p\<rparr>]) (Suc n)"
  by (auto simp: slots_wf_def less_Suc_eq)

lemma slots_wf_SetupReceiver:
  assumes "slots_wf (receivers t) (next_addr t)"
  shows "slots_wf (receivers (SetupReceiver receiver prio mid t)) (next_addr (SetupReceiver receiver prio mid t))"
proof (cases "state t = mediaTrackReceiverStateOpen")
  case False
  with assms show ?thesis by (simp add: SetupReceiver_def)
next
  case True
  from assms have "slots_wf (fst (SetupReceiver_upgrade receiver (receivers t))) (next_addr t)"
    by (simp only: slots_wf_upgrade)
  then show ?thesis
    unfolding receivers_SetupReceiver [OF True] next_addr_SetupReceiver [OF True] slots_wf_sort_key
    by (simp add: slots_wf_append)
qed

lemma sorted_SetupReceiver:
  assumes "sorted (map priority (receivers t))"
  shows "sorted (map priority (receivers (SetupReceiver receiver prio mid t)))"
proof (cases "state t = mediaTrackReceiverStateOpen")
  case False
  with assms show ?thesis by (simp add: SetupReceiver_def)
next
  case True
  show ?thesis unfolding receivers_SetupReceiver [OF True] by (rule sorted_sort_key)
qed

lemma no_dup_SetupReceiver:
  assumes nd: "no_mime_duplicates (receivers t)"
    and cf: "collision_free_call t (CallSetupReceiver receiver prio mid)"
  shows "no_mime_duplicates (receivers (SetupReceiver receiver prio mid t))"
proof (cases "state t = mediaTrackReceiverStateOpen")
  case False
  with nd show ?thesis by (simp add: SetupReceiver_def)
next
  case True
  let ?up = "SetupReceiver_upgrade receiver (receivers t)"
  have k: "map (\<lambda>r. map toLower (slotMime r)) (fst ?up) = map (\<lambda>r. map toLower (slotMime r)) (receivers t)"
  proof -
    have "map (map toLower) (map slotMime (fst ?up)) = map (map toLower) (map slotMime (receivers t))"
      by (simp only: upgrade_slotMime)
    then show ?thesis by (simp add: o_def)
  qed
  show ?thesis
  proof (cases "snd ?up")
    case True
    with nd k show ?thesis
      unfolding receivers_SetupReceiver [OF \<open>state t = mediaTrackReceiverStateOpen\<close>] no_mime_duplicates_sort_key
      by (simp add: no_mime_duplicates_def)
  next
    case False
    then have "\<forall>r \<in> set (receivers t). \<not> EqualFold (slotMime r) (MimeType (Codec receiver))"
      using cf by (auto simp: upgrade_flag)
    then have "map toLower (MimeType (Codec receiver)) \<notin> (\<lambda>r. map toLower (slotMime r)) ` set (receivers t)"
      by (auto simp: EqualFold_key)
    with False nd k show ?thesis
      unfolding receivers_SetupReceiver [OF \<open>state t = mediaTrackReceiverStateOpen\<close>] no_mime_duplicates_sort_key
      by (simp add: no_mime_duplicates_def slotMime_def)
  qed
qed

lemma same_slot_refl: "same_slot r r"
  by (simp add: same_slot_def)

lemma kept_refl: "r \<in> set rs \<Longrightarrow> \<exists>r' \<in> set rs. same_slot r r'"
  using same_slot_refl by blast

lemma same_slot_trans: "same_slot a b \<Longrightarrow> same_slot b c \<Longrightarrow> same_slot a c"
  by (simp add: same_slot_def)

lemma kept_SetupReceiver:
  assumes "r \<in> set (receivers t)"
  shows "\<exists>r' \<in> set (receivers (SetupReceiver receiver prio mid t)). same_slot r r'"
proof (cases "state t = mediaTrackReceiverStateOpen")
  case False
  with assms show ?thesis by (auto simp: SetupReceiver_def intro!: bexI [of _ r] same_slot_refl)
next
  case True
  from assms upgrade_same_slot [of "receivers t" receiver]
  obtain r' where "r' \<in> set (fst (SetupReceiver_upgrade receiver (receivers t)))" "same_slot r r'"
    by (metis in_set_conv_nth list_all2_conv_all_nth)
  then show ?thesis
    unfolding receivers_SetupReceiver [OF True] by auto
qed

subsection \<open>SetPotentialCodecs\<close>

lemma loop_props:
  "SetPotentialCodecs_loop sfu hs hs' i cs (rs, n) = (rs', n') \<Longrightarrow>
     (\<exists>new. rs' = rs @ new)
   \<and> (slots_wf rs n \<longrightarrow> slots_wf rs' n')
   \<and> (no_mime_duplicates rs \<longrightarrow> no_mime_duplicates rs')"
proof (induction sfu hs hs' i cs "(rs, n)" arbitrary: rs n rule: SetPotentialCodecs_loop.induct)
  case (1 sfu headers headersWithoutDD i rs n)
  then show ?case by simp
next
  case (2 sfu headers headersWithoutDD i c cs rs n)
  show ?case
  proof (cases "\<exists>r \<in> set rs. EqualFold (MimeType c) (slotMime r)")
    case True
    with 2 show ?thesis by simp
  next
    case False
    let ?new = "\<lparr>addr = n, TrackReceiver = NewDummyReceiver c
                       (if \<not> IsSvcCodec sfu (MimeType c) then headersWithoutDD else headers),
                     priority = int i\<rparr>"
    from False 2(3) have e: "SetPotentialCodecs_loop sfu headers headersWithoutDD (Suc i) cs (rs @ [?new], Suc n) = (rs', n')"
      by simp
    from 2(2) [OF False e]
    have ih: "(\<exists>new. rs' = (rs @ [?new]) @ new)"
      "slots_wf (rs @ [?new]) (Suc n) \<longrightarrow> slots_wf rs' n'"
      "no_mime_duplicates (rs @ [?new]) \<longrightarrow> no_mime_duplicates rs'"
      by auto
    have w: "slots_wf rs n \<Longrightarrow> slots_wf (rs @ [?new]) (Suc n)"
      by (auto simp: slots_wf_def less_Suc_eq)
    have d: "no_mime_duplicates rs \<Longrightarrow> no_mime_duplicates (rs @ [?new])"
      using False by (auto simp: no_mime_duplicates_def slotMime_def NewDummyReceiver_def EqualFold_key)
    from ih w d show ?thesis by auto
  qed
qed

lemma SetPotentialCodecs_props:
  "(\<forall>r \<in> set (receivers t). r \<in> set (receivers (SetPotentialCodecs sfu codecs headers t)))
   \<and> sorted (map priority (receivers (SetPotentialCodecs sfu codecs headers t)))
   \<and> (slots_wf (receivers t) (next_addr t) \<longrightarrow>
        slots_wf (receivers (SetPotentialCodecs sfu codecs headers t)) (next_addr (SetPotentialCodecs sfu codecs headers t)))
   \<and> (no_mime_duplicates (receivers t) \<longrightarrow> no_mime_duplicates (receivers (SetPotentialCodecs sfu codecs headers t)))"
proof -
  obtain rs' n' where e: "SetPotentialCodecs_loop sfu headers (filter (\<lambda>h. h \<noteq> ExtensionURI sfu) headers) 0 codecs
      (receivers t, next_addr t) = (rs', n')"
    by (cases "SetPotentialCodecs_loop sfu headers (filter (\<lambda>h. h \<noteq> ExtensionURI sfu) headers) 0 codecs
      (receivers t, next_addr t)") auto
  then have r: "receivers (SetPotentialCodecs sfu codecs headers t) = sort_key priority rs'"
    "next_addr (SetPotentialCodecs sfu codecs headers t) = n'"
    by (simp_all add: SetPotentialCodecs_def Let_def)
  from loop_props [OF e] show ?thesis
    unfolding r slots_wf_sort_key no_mime_duplicates_sort_key
    by auto
qed

lemma step_inv:
  "(sorted (map priority (receivers t)) \<longrightarrow> sorted (map priority (receivers (setup_step sfu c t))))
   \<and> (slots_wf (receivers t) (next_addr t) \<longrightarrow>
        slots_wf (receivers (setup_step sfu c t)) (next_addr (setup_step sfu c t)))
   \<and> (no_mime_duplicates (receivers t) \<and> collision_free_call t c \<longrightarrow>
        no_mime_duplicates (receivers (setup_step sfu c t)))
   \<and> (\<forall>r \<in> set (receivers t). \<exists>r' \<in> set (receivers (setup_step sfu c t)). same_slot r r')"
proof (cases c)
  case (CallSetupReceiver receiver prio mid)
  then show ?thesis
    using sorted_SetupReceiver [of t receiver prio mid] slots_wf_SetupReceiver [of t receiver prio mid]
      no_dup_SetupReceiver [of t receiver prio mid] kept_SetupReceiver [of _ t receiver prio mid]
    by auto
next
  case (CallSetPotentialCodecs codecs headers)
  then show ?thesis
    using SetPotentialCodecs_props [of t sfu codecs headers]
    by (auto intro: kept_refl)
qed

lemma run_inv:
  "sorted (map priority (receivers t)) \<Longrightarrow> slots_wf (receivers t) (next_addr t) \<Longrightarrow>
     sorted (map priority (receivers (setup_run sfu t cs)))
   \<and> slots_wf (receivers (setup_run sfu t cs)) (next_addr (setup_run sfu t cs))"
proof (induction cs arbitrary: t)
  case Nil
  then show ?case by (simp add: setup_run_def)
next
  case (Cons c cs)
  from Cons.prems step_inv [of t sfu c]
  have "sorted (map priority (receivers (setup_step sfu c t)))"
    "slots_wf (receivers (setup_step sfu c t)) (next_addr (setup_step sfu c t))"
    by auto
  from Cons.IH [OF this] show ?case by (simp add: setup_run_def)
qed

lemma run_no_dup:
  "no_mime_duplicates (receivers t) \<Longrightarrow> collision_free sfu t cs \<Longrightarrow>
     no_mime_duplicates (receivers (setup_run sfu t cs))"
proof (induction cs arbitrary: t)
  case Nil
  then show ?case by (simp add: setup_run_def)
next
  case (Cons c cs)
  from Cons.prems step_inv [of t sfu c]
  have "no_mime_duplicates (receivers (setup_step sfu c t))" "collision_free sfu (setup_step sfu c t) cs"
    by auto
  from Cons.IH [OF this] show ?case by (simp add: setup_run_def)
qed

lemma run_kept:
  "r \<in> set (receivers t) \<Longrightarrow> \<exists>r' \<in> set (receivers (setup_run sfu t cs)). same_slot r r'"
proof (induction cs arbitrary: t r)
  case Nil
  then show ?case by (auto simp: setup_run_def intro: kept_refl)
next
  case (Cons c cs)
  from Cons.prems step_inv [of t sfu c]
  obtain r1 where r1: "r1 \<in> set (receivers (setup_step sfu c t))" "same_slot r r1" by blast
  from Cons.IH [OF r1(1)] obtain r' where "r' \<in> set (receivers (setup_run sfu (setup_step sfu c t) cs))" "same_slot r1 r'"
    by blast
  with r1(2) show ?case by (auto simp: setup_run_def intro: same_slot_trans)
qed

lemma setup_run_append: "setup_run sfu t (cs @ cs') = setup_run sfu (setup_run sfu t cs) cs'"
  by (simp add: setup_run_def)

lemma receivers_New: "receivers (NewMediaTrackReceiver ps ti) = []"
  by (simp add: NewMediaTrackReceiver_def SetMuted_def emit_def Let_def)

text \<open>
  C2, as the code has it. For every sequence of \<open>SetupReceiver\<close> and
  \<open>SetPotentialCodecs\<close> calls on a new object: the slot list is ordered ascending by
  priority; the slots are pairwise different pointers; every slot the list holds after
  some calls is still in it after any further calls, the same pointer with the same
  priority, a Dummy still the Dummy it was (so a slot keeps its identity when its Dummy
  is upgraded); and the list holds at most one slot per mime, compared
  case-insensitively, provided no \<open>SetupReceiver\<close> call brings a receiver whose mime
  matches a slot that holds a real receiver.
\<close>

theorem setup_calls_slot_list:
  "sorted (map priority (receivers (setup_run sfu (NewMediaTrackReceiver ps ti) cs)))
   \<and> distinct (map addr (receivers (setup_run sfu (NewMediaTrackReceiver ps ti) cs)))
   \<and> (collision_free sfu (NewMediaTrackReceiver ps ti) cs \<longrightarrow>
        no_mime_duplicates (receivers (setup_run sfu (NewMediaTrackReceiver ps ti) cs)))
   \<and> (\<forall>r \<in> set (receivers (setup_run sfu (NewMediaTrackReceiver ps ti) cs)).
        \<exists>r' \<in> set (receivers (setup_run sfu (NewMediaTrackReceiver ps ti) (cs @ cs'))). same_slot r r')"
proof -
  let ?t0 = "NewMediaTrackReceiver ps ti"
  have s: "sorted (map priority (receivers ?t0))" and w: "slots_wf (receivers ?t0) (next_addr ?t0)"
    and d: "no_mime_duplicates (receivers ?t0)"
    by (simp_all add: receivers_New slots_wf_def no_mime_duplicates_def)
  from run_inv [OF s w, of sfu cs] run_no_dup [OF d, of sfu cs] run_kept [of _ "setup_run sfu ?t0 cs" sfu cs']
  show ?thesis
    by (auto simp: slots_wf_def setup_run_append)
qed


section \<open>SetupReceiver: upgrade in place\<close>

text \<open>
  C6, as the code has it. When \<open>SetupReceiver\<close> is called in the state Open with a
  receiver whose mime matches, case-insensitively, a slot that holds a DummyReceiver,
  the slot list is \<open>pre @ d # post\<close> with \<open>d\<close> the first such slot, and afterwards
  it is the same list with \<open>d\<close> upgraded (same pointer, same priority, the Dummy now
  delegating to the receiver if it had no delegate), sorted by priority: no slot is
  appended, the allocation counter does not move, and the order of the list is
  unchanged whenever the list was ordered by priority before the call.
\<close>

theorem SetupReceiver_upgrades_in_place:
  assumes "state t = mediaTrackReceiverStateOpen"
    and "\<exists>r \<in> set (receivers t).
           EqualFold (slotMime r) (MimeType (Codec receiver)) \<and> isDummy (TrackReceiver r)"
  shows "\<exists>pre d post.
           receivers t = pre @ d # post
         \<and> (\<forall>p \<in> set pre. \<not> (EqualFold (slotMime p) (MimeType (Codec receiver)) \<and> isDummy (TrackReceiver p)))
         \<and> EqualFold (slotMime d) (MimeType (Codec receiver)) \<and> isDummy (TrackReceiver d)
         \<and> receivers (SetupReceiver receiver prio mid t) =
             sort_key priority (pre @ d\<lparr>TrackReceiver := Upgrade receiver (TrackReceiver d)\<rparr> # post)
         \<and> (sorted (map priority (receivers t)) \<longrightarrow>
              receivers (SetupReceiver receiver prio mid t) =
                pre @ d\<lparr>TrackReceiver := Upgrade receiver (TrackReceiver d)\<rparr> # post)
         \<and> (Receiver (TrackReceiver d) = None \<longrightarrow>
              Receiver (Upgrade receiver (TrackReceiver d)) = Some receiver)
         \<and> length (receivers (SetupReceiver receiver prio mid t)) = length (receivers t)
         \<and> next_addr (SetupReceiver receiver prio mid t) = next_addr t"
proof -
  from assms(2) have u: "snd (SetupReceiver_upgrade receiver (receivers t))"
    by (simp add: upgrade_flag)
  from upgrade_split [OF u] obtain pre d post where
    s: "receivers t = pre @ d # post"
      "\<forall>p \<in> set pre. \<not> (EqualFold (slotMime p) (MimeType (Codec receiver)) \<and> isDummy (TrackReceiver p))"
      "EqualFold (slotMime d) (MimeType (Codec receiver))" "isDummy (TrackReceiver d)"
      "fst (SetupReceiver_upgrade receiver (receivers t)) =
           pre @ d\<lparr>TrackReceiver := Upgrade receiver (TrackReceiver d)\<rparr> # post"
    by blast
  let ?new = "pre @ d\<lparr>TrackReceiver := Upgrade receiver (TrackReceiver d)\<rparr> # post"
  have r: "receivers (SetupReceiver receiver prio mid t) = sort_key priority ?new"
    using u s(5) by (simp add: receivers_SetupReceiver [OF assms(1)])
  have p: "map priority ?new = map priority (receivers t)"
    by (simp add: s(1))
  have o: "sorted (map priority (receivers t)) \<longrightarrow> receivers (SetupReceiver receiver prio mid t) = ?new"
    unfolding r using p by (simp add: sort_key_id_if_sorted)
  have g: "Receiver (TrackReceiver d) = None \<longrightarrow> Receiver (Upgrade receiver (TrackReceiver d)) = Some receiver"
    using s(4) by (cases "(receiver, TrackReceiver d)" rule: Upgrade.cases) auto
  have l: "length (receivers (SetupReceiver receiver prio mid t)) = length (receivers t)"
    unfolding r by (simp add: s(1))
  have n: "next_addr (SetupReceiver receiver prio mid t) = next_addr t"
    using u by (simp add: next_addr_SetupReceiver [OF assms(1)])
  show ?thesis
    by (rule exI [of _ pre], rule exI [of _ d], rule exI [of _ post])
      (intro conjI s(1) s(2) s(3) s(4) r o g l n)
qed

lemma example_cleared_eval:
  "state example_cleared = mediaTrackReceiverStateOpen
   \<and> receivers example_cleared =
        [\<lparr>addr = 2, TrackReceiver = DummyReceiver codec_AV1 [''urn:dd'', ''urn:mid''] None, priority = 2\<rparr>,
         \<lparr>addr = 1, TrackReceiver = DummyReceiver codec_H264 [''urn:mid''] None, priority = 1\<rparr>]"
  by (simp add: example_cleared_def example_seeded_eval ClearReceiver_def ClearReceiver_slots_def emit_def
      EqualFold_def toLower_Char slotMime_def codec_VP8_def codec_H264_def codec_AV1_def)

text \<open>
  C6 as stated fails on the order: after \<open>ClearReceiver\<close> has moved the last slot
  forward, the upgrade of the H264 Dummy sorts the list again and the two slots change
  places.
\<close>

theorem SetupReceiver_reorders:
  "state example_cleared = mediaTrackReceiverStateOpen
   \<and> map addr (receivers example_cleared) = [2, 1]
   \<and> EqualFold (slotMime (receivers example_cleared ! 1)) (MimeType (Codec (WebRTCReceiver 8 codec_H264)))
   \<and> isDummy (TrackReceiver (receivers example_cleared ! 1))
   \<and> map addr (receivers (SetupReceiver (WebRTCReceiver 8 codec_H264) 1 ''1'' example_cleared)) = [1, 2]"
proof -
  have h: "state example_cleared = mediaTrackReceiverStateOpen"
    by (simp add: example_cleared_eval)
  show ?thesis
    unfolding receivers_SetupReceiver [OF h]
    by (simp add: example_cleared_eval EqualFold_def toLower_Char slotMime_def
        codec_VP8_def codec_H264_def codec_AV1_def)
qed

text \<open>Scenario 1 of the spec: the first of the three seeded Dummy slots is upgraded.\<close>

theorem SetupReceiver_upgrades_in_place_witness:
  "state example_seeded = mediaTrackReceiverStateOpen
   \<and> (\<exists>r \<in> set (receivers example_seeded).
         EqualFold (slotMime r) (MimeType (Codec (WebRTCReceiver 7 codec_VP8))) \<and> isDummy (TrackReceiver r))
   \<and> map addr (receivers (SetupReceiver (WebRTCReceiver 7 codec_VP8) 0 ''0'' example_seeded)) = [0, 1, 2]
   \<and> Receiver (TrackReceiver (receivers (SetupReceiver (WebRTCReceiver 7 codec_VP8) 0 ''0'' example_seeded) ! 0))
       = Some (WebRTCReceiver 7 codec_VP8)"
proof -
  have h1: "state example_seeded = mediaTrackReceiverStateOpen"
    by (simp add: example_seeded_eval)
  have h2: "\<exists>r \<in> set (receivers example_seeded).
         EqualFold (slotMime r) (MimeType (Codec (WebRTCReceiver 7 codec_VP8))) \<and> isDummy (TrackReceiver r)"
    by (simp add: example_seeded_eval EqualFold_def slotMime_def codec_VP8_def)
  from h1 h2 SetupReceiver_upgrades_in_place [OF h1 h2, of 0 "''0''"] show ?thesis
    using example_upgraded_eval by (simp add: example_upgraded_def)
qed

lemma example_setup_calls_eval:
  "receivers (setup_run example_sfu example_new example_setup_calls) =
        [\<lparr>addr = 0, TrackReceiver = DummyReceiver codec_VP8 [''urn:mid''] (Some (WebRTCReceiver 7 codec_VP8)),
           priority = 0\<rparr>,
         \<lparr>addr = 1, TrackReceiver = DummyReceiver codec_H264 [''urn:mid''] None, priority = 1\<rparr>]"
  by (simp add: example_setup_calls_def setup_run_def example_new_eval SetPotentialCodecs_def SetupReceiver_def
      EqualFold_def toLower_Char slotMime_def NewDummyReceiver_def example_sfu_def
      codec_VP8_def codec_H264_def Let_def)

theorem setup_calls_slot_list_witness:
  "collision_free example_sfu (NewMediaTrackReceiver example_params example_trackInfo) example_setup_calls
   \<and> map priority (receivers (setup_run example_sfu (NewMediaTrackReceiver example_params example_trackInfo) example_setup_calls)) = [0, 1]
   \<and> no_mime_duplicates (receivers (setup_run example_sfu (NewMediaTrackReceiver example_params example_trackInfo) example_setup_calls))"
proof -
  have c: "collision_free example_sfu (NewMediaTrackReceiver example_params example_trackInfo) example_setup_calls"
    unfolding example_new_def [symmetric]
    by (simp add: example_setup_calls_def example_new_eval SetPotentialCodecs_def
      EqualFold_def toLower_Char slotMime_def NewDummyReceiver_def example_sfu_def
      codec_VP8_def codec_H264_def Let_def)
  from c setup_calls_slot_list [of example_sfu example_params example_trackInfo example_setup_calls "[]"]
  show ?thesis
    using example_setup_calls_eval by (simp add: example_new_def)
qed

text \<open>
  C2 as stated fails on the mime types: a second real receiver of a mime that a real
  receiver already has is appended as a second slot.
\<close>

theorem setup_calls_duplicate_mime:
  "map slotMime (receivers (setup_run example_sfu (NewMediaTrackReceiver example_params example_trackInfo)
       example_colliding_calls)) = [''video/VP8'', ''video/VP8'']
   \<and> \<not> no_mime_duplicates (receivers (setup_run example_sfu (NewMediaTrackReceiver example_params example_trackInfo)
       example_colliding_calls))"
  unfolding example_new_def [symmetric]
  by (simp add: example_colliding_calls_def setup_run_def example_new_eval SetupReceiver_def
      no_mime_duplicates_def EqualFold_def toLower_Char slotMime_def codec_VP8_def Let_def)

section \<open>A non-zero ssrc is kept\<close>

lemma find_map_inv: "(\<And>x. P (f x) = P x) \<Longrightarrow> find P (map f xs) = map_option f (find P xs)"
  by (induction xs) auto

lemma find_distinct_key:
  "distinct (map f xs) \<Longrightarrow> x \<in> set xs \<Longrightarrow> find (\<lambda>y. f y = f x) xs = Some x"
  by (induction xs) auto

subsection \<open>SetLayerSsrc\<close>

lemma SetLayerSsrc_layers_keeps:
  "map_option vl_Ssrc (find (\<lambda>l. vl_Quality l = q) ls) = Some s \<Longrightarrow> s \<noteq> 0 \<Longrightarrow>
     map_option vl_Ssrc (find (\<lambda>l. vl_Quality l = q) (SetLayerSsrc_layers quality ssrc ls)) = Some s"
  by (induction ls) auto

lemma fst_SetLayerSsrc_codecs_Cons:
  "fst (SetLayerSsrc_codecs i mime quality ssrc (ci # cis) tls) =
     (if \<not> EqualFold (ci_MimeType ci) mime
      then ci # fst (SetLayerSsrc_codecs (Suc i) mime quality ssrc cis tls)
      else ci\<lparr>ci_Layers := SetLayerSsrc_layers quality ssrc (ci_Layers ci)\<rparr> # cis)"
  by (simp add: Let_def split: prod.splits)

lemma SetLayerSsrc_codecs_keeps:
  "codecsLayerSsrc cis m q = Some s \<Longrightarrow> s \<noteq> 0 \<Longrightarrow>
     codecsLayerSsrc (fst (SetLayerSsrc_codecs i mime quality ssrc cis tls)) m q = Some s"
proof (induction cis arbitrary: i)
  case Nil
  then show ?case by (simp add: codecsLayerSsrc_def)
next
  case (Cons ci cis)
  show ?case
  proof (cases "EqualFold (ci_MimeType ci) m")
    case True
    with Cons.prems show ?thesis
      unfolding fst_SetLayerSsrc_codecs_Cons
      by (simp add: codecsLayerSsrc_def SetLayerSsrc_layers_keeps)
  next
    case False
    with Cons.prems have c: "codecsLayerSsrc cis m q = Some s" by (simp add: codecsLayerSsrc_def)
    from Cons.IH [OF c Cons.prems(2), of "Suc i"] c False show ?thesis
      unfolding fst_SetLayerSsrc_codecs_Cons
      by (simp add: codecsLayerSsrc_def)
  qed
qed

lemma trackInfo_updateTrackInfoOfReceivers [simp]:
  "trackInfo (updateTrackInfoOfReceivers t) = trackInfo t"
  by (simp add: updateTrackInfoOfReceivers_def emit_def)

lemma Codecs_SetLayerSsrc:
  "ti_Codecs (trackInfo (SetLayerSsrc buf mime rid ssrc t)) =
     fst (SetLayerSsrc_codecs 0 mime
            (SpatialLayerToVideoQuality buf
               (if RidToSpatialLayer buf rid (trackInfo t) = InvalidLayerSpatial buf then 0
                else RidToSpatialLayer buf rid (trackInfo t)) (trackInfo t))
            ssrc (ti_Codecs (trackInfo t)) (ti_Layers (trackInfo t)))"
  by (simp add: SetLayerSsrc_def Let_def split: prod.splits)

subsection \<open>The layers of UpdateTrackInfo and UpdateVideoLayers\<close>

lemma keepOriginSsrc_quality [simp]: "vl_Quality (keepOriginSsrc origin layer) = vl_Quality layer"
  by (induction origin) auto

lemma keepOriginSsrc_ssrc:
  "map_option vl_Ssrc (find (\<lambda>l. vl_Quality l = q) origin) = Some s \<Longrightarrow> s \<noteq> 0 \<Longrightarrow>
     vl_Quality layer = q \<Longrightarrow> vl_Ssrc (keepOriginSsrc origin layer) = s"
  by (induction origin) auto

lemma keepOriginSsrc_layers:
  assumes "map_option vl_Ssrc (find (\<lambda>l. vl_Quality l = q) origin) = Some s" "s \<noteq> 0"
  shows "map_option vl_Ssrc (find (\<lambda>l. vl_Quality l = q) (map (keepOriginSsrc origin) layers)) =
       (if \<exists>l \<in> set layers. vl_Quality l = q then Some s else None)"
proof -
  have m: "find (\<lambda>l. vl_Quality l = q) (map (keepOriginSsrc origin) layers) =
             map_option (keepOriginSsrc origin) (find (\<lambda>l. vl_Quality l = q) layers)"
    by (rule find_map_inv) simp
  show ?thesis
  proof (cases "find (\<lambda>l. vl_Quality l = q) layers")
    case None
    then have "\<not> (\<exists>l \<in> set layers. vl_Quality l = q)"
      by (simp add: find_None_iff)
    with None m show ?thesis by simp
  next
    case (Some l)
    then have l: "vl_Quality l = q" "l \<in> set layers"
      by (auto simp: find_Some_iff)
    from keepOriginSsrc_ssrc [OF assms l(1)] l Some m show ?thesis by auto
  qed
qed

subsection \<open>UpdateTrackInfo\<close>

lemma UpdateTrackInfo_codec_mime [simp]:
  "ci_MimeType (UpdateTrackInfo_codec origin ci) = ci_MimeType ci"
  by (induction origin) auto

lemma UpdateTrackInfo_codec_keeps:
  "codecsLayerSsrc origin m q = Some s \<Longrightarrow> s \<noteq> 0 \<Longrightarrow> EqualFold (ci_MimeType ci) m \<Longrightarrow>
     map_option vl_Ssrc (find (\<lambda>l. vl_Quality l = q) (ci_Layers (UpdateTrackInfo_codec origin ci))) =
       (if \<exists>l \<in> set (ci_Layers ci). vl_Quality l = q then Some s else None)"
proof (induction origin)
  case Nil
  then show ?case by (simp add: codecsLayerSsrc_def)
next
  case (Cons o1 origin)
  show ?case
  proof (cases "EqualFold (ci_MimeType o1) m")
    case True
    with Cons.prems(3) have e: "EqualFold (ci_MimeType ci) (ci_MimeType o1)"
      by (simp add: EqualFold_key)
    from True Cons.prems(1) have "map_option vl_Ssrc (find (\<lambda>l. vl_Quality l = q) (ci_Layers o1)) = Some s"
      by (simp add: codecsLayerSsrc_def)
    from keepOriginSsrc_layers [OF this Cons.prems(2)] e show ?thesis by simp
  next
    case False
    with Cons.prems(3) have e: "\<not> EqualFold (ci_MimeType ci) (ci_MimeType o1)"
      by (simp add: EqualFold_key)
    from False Cons.prems(1) have "codecsLayerSsrc origin m q = Some s"
      by (simp add: codecsLayerSsrc_def)
    from Cons.IH [OF this Cons.prems(2,3)] e show ?thesis by simp
  qed
qed

lemma find_exists: "(find P xs \<noteq> None) = (\<exists>x \<in> set xs. P x)"
  by (induction xs) auto

lemma UpdateTrackInfo_codecs_keeps:
  assumes "codecsLayerSsrc origin m q = Some s" "s \<noteq> 0"
  shows "codecsLayerSsrc (map (UpdateTrackInfo_codec origin) new) m q =
           (if codecsLayerSsrc new m q \<noteq> None then Some s else None)"
proof (induction new)
  case Nil
  then show ?case by (simp add: codecsLayerSsrc_def)
next
  case (Cons ci new)
  show ?case
  proof (cases "EqualFold (ci_MimeType ci) m")
    case True
    from UpdateTrackInfo_codec_keeps [OF assms True] True show ?thesis
      by (simp add: codecsLayerSsrc_def find_exists [symmetric])
  next
    case False
    with Cons.IH show ?thesis by (simp add: codecsLayerSsrc_def)
  qed
qed

lemma Codecs_UpdateTrackInfo:
  "ti_Codecs (trackInfo (UpdateTrackInfo ti t)) =
     map (UpdateTrackInfo_codec (ti_Codecs (trackInfo t))) (ti_Codecs ti)"
  by (simp add: UpdateTrackInfo_def Let_def SetMuted_def emit_def)

subsection \<open>UpdateVideoLayers\<close>

lemma UpdateVideoLayers_codecs_keeps:
  assumes "s \<noteq> 0"
  shows "codecsLayerSsrc cis m q = Some s \<Longrightarrow>
     codecsLayerSsrc (map (\<lambda>ci. ci\<lparr>ci_Layers := map (keepOriginSsrc (ci_Layers ci)) layers\<rparr>) cis) m q =
       (if \<exists>l \<in> set layers. vl_Quality l = q then Some s else None)"
proof (induction cis)
  case Nil
  then show ?case by (simp add: codecsLayerSsrc_def)
next
  case (Cons ci cis)
  show ?case
  proof (cases "EqualFold (ci_MimeType ci) m")
    case True
    with Cons.prems have "map_option vl_Ssrc (find (\<lambda>l. vl_Quality l = q) (ci_Layers ci)) = Some s"
      by (simp add: codecsLayerSsrc_def)
    from keepOriginSsrc_layers [OF this assms, of layers] True show ?thesis
      by (simp add: codecsLayerSsrc_def)
  next
    case False
    with Cons show ?thesis by (simp add: codecsLayerSsrc_def)
  qed
qed

lemma Codecs_UpdateVideoLayers:
  "ti_Codecs (trackInfo (UpdateVideoLayers layers t)) =
     map (\<lambda>ci. ci\<lparr>ci_Layers := map (keepOriginSsrc (ci_Layers ci)) layers\<rparr>) (ti_Codecs (trackInfo t))"
  by (simp add: UpdateVideoLayers_def Let_def emit_def)

lemma ssrc_step_keeps:
  assumes "layerSsrc (trackInfo t) mime quality = Some ssrc" "ssrc \<noteq> 0"
  shows "layerSsrc (trackInfo (ssrc_step buf call t)) mime quality =
           (if carries call mime quality then Some ssrc else None)"
proof (cases call)
  case (CallSetLayerSsrc m rid s)
  with assms show ?thesis
    by (simp add: layerSsrc_def Codecs_SetLayerSsrc SetLayerSsrc_codecs_keeps)
next
  case (CallUpdateTrackInfo ti)
  with assms show ?thesis
    by (simp add: layerSsrc_def Codecs_UpdateTrackInfo UpdateTrackInfo_codecs_keeps)
next
  case (CallUpdateVideoLayers layers)
  with assms show ?thesis
    by (simp add: layerSsrc_def Codecs_UpdateVideoLayers UpdateVideoLayers_codecs_keeps)
qed

lemma keys_unique_designates:
  assumes "keys_unique ti" "ci \<in> set (ti_Codecs ti)" "l \<in> set (ci_Layers ci)"
  shows "layerSsrc ti (ci_MimeType ci) (vl_Quality l) = Some (vl_Ssrc l)"
proof -
  from assms(1,2) have "find (\<lambda>c. map toLower (ci_MimeType c) = map toLower (ci_MimeType ci)) (ti_Codecs ti) = Some ci"
    by (intro find_distinct_key) (auto simp: keys_unique_def)
  moreover from assms have "find (\<lambda>x. vl_Quality x = vl_Quality l) (ci_Layers ci) = Some l"
    by (intro find_distinct_key) (auto simp: keys_unique_def)
  ultimately show ?thesis
    by (simp add: layerSsrc_def codecsLayerSsrc_def EqualFold_key)
qed

lemma ssrc_run_keeps:
  "layerSsrc (trackInfo t) mime quality = Some ssrc \<Longrightarrow> ssrc \<noteq> 0 \<Longrightarrow>
     \<forall>call \<in> set calls. carries call mime quality \<Longrightarrow>
     layerSsrc (trackInfo (ssrc_run buf t calls)) mime quality = Some ssrc"
proof (induction calls arbitrary: t)
  case Nil
  then show ?case by (simp add: ssrc_run_def)
next
  case (Cons call calls)
  from Cons.prems have "layerSsrc (trackInfo (ssrc_step buf call t)) mime quality = Some ssrc"
    by (simp add: ssrc_step_keeps)
  from Cons.IH [OF this Cons.prems(2)] Cons.prems(3) show ?case
    by (simp add: ssrc_run_def)
qed

text \<open>
  C3, as the code has it. Let the pair (mime, quality) designate a layer of TrackInfo
  (the first layer of that quality in the first codec whose mime matches
  case-insensitively) and let its ssrc be non-zero. After one call of
  \<open>SetLayerSsrc\<close>, \<open>UpdateTrackInfo\<close> or \<open>UpdateVideoLayers\<close>, the layer the pair
  designates has the same ssrc if the call carries a layer for the pair, and there is no
  such layer if it does not. After any sequence of such calls, each of which carries a
  layer for the pair, the layer the pair designates still has that ssrc: no later call
  changes it, however many calls lie between. When no mime is repeated among the codecs
  and no quality within a codec, both hold for every layer of every codec.
\<close>

theorem nonzero_ssrc_kept:
  "(layerSsrc (trackInfo t) mime quality = Some ssrc \<and> ssrc \<noteq> 0 \<longrightarrow>
      layerSsrc (trackInfo (ssrc_step buf call t)) mime quality =
        (if carries call mime quality then Some ssrc else None))
   \<and> (keys_unique (trackInfo t) \<and> ci \<in> set (ti_Codecs (trackInfo t)) \<and> l \<in> set (ci_Layers ci)
        \<and> vl_Ssrc l \<noteq> 0 \<longrightarrow>
      layerSsrc (trackInfo (ssrc_step buf call t)) (ci_MimeType ci) (vl_Quality l) =
        (if carries call (ci_MimeType ci) (vl_Quality l) then Some (vl_Ssrc l) else None))
   \<and> (layerSsrc (trackInfo t) mime quality = Some ssrc \<and> ssrc \<noteq> 0
        \<and> (\<forall>c \<in> set calls. carries c mime quality) \<longrightarrow>
      layerSsrc (trackInfo (ssrc_run buf t calls)) mime quality = Some ssrc)
   \<and> (keys_unique (trackInfo t) \<and> ci \<in> set (ti_Codecs (trackInfo t)) \<and> l \<in> set (ci_Layers ci)
        \<and> vl_Ssrc l \<noteq> 0 \<and> (\<forall>c \<in> set calls. carries c (ci_MimeType ci) (vl_Quality l)) \<longrightarrow>
      layerSsrc (trackInfo (ssrc_run buf t calls)) (ci_MimeType ci) (vl_Quality l) = Some (vl_Ssrc l))"
  using ssrc_step_keeps [of t mime quality ssrc buf call]
    ssrc_step_keeps [of t "ci_MimeType ci" "vl_Quality l" "vl_Ssrc l" buf call]
    ssrc_run_keeps [of t mime quality ssrc calls buf]
    ssrc_run_keeps [of t "ci_MimeType ci" "vl_Quality l" "vl_Ssrc l" calls buf]
    keys_unique_designates [of "trackInfo t" ci l]
  by blast

lemma example_ssrc_set_eval:
  "ti_Codecs (trackInfo example_ssrc_set) =
     [\<lparr>ci_MimeType = ''video/VP8'', ci_Mid = [], ci_Cid = ''c0'',
       ci_Layers =
         [\<lparr>vl_Quality = VideoQuality_LOW, vl_Width = 320, vl_Height = 180, vl_Ssrc = 1111\<rparr>,
          \<lparr>vl_Quality = VideoQuality_MEDIUM, vl_Width = 640, vl_Height = 360, vl_Ssrc = 0\<rparr>,
          \<lparr>vl_Quality = VideoQuality_HIGH, vl_Width = 1280, vl_Height = 720, vl_Ssrc = 0\<rparr>]\<rparr>,
      \<lparr>ci_MimeType = ''video/H264'', ci_Mid = [], ci_Cid = ''c1'', ci_Layers = example_layers\<rparr>]"
  by (simp add: example_ssrc_set_def Codecs_SetLayerSsrc example_new_eval example_trackInfo_def
      example_buffer_def example_layers_def EqualFold_def toLower_Char Let_def
      VideoQuality_LOW_def VideoQuality_MEDIUM_def VideoQuality_HIGH_def)

text \<open>
  The ssrc 1111 of the low layer of VP8 is kept by each of the three calls, and by the
  three made one after the other; a call that carries no layer leaves no such layer.
\<close>

theorem nonzero_ssrc_kept_witness:
  "layerSsrc (trackInfo example_ssrc_set) ''video/VP8'' VideoQuality_LOW = Some 1111
   \<and> (1111 :: 32 word) \<noteq> 0 \<and> keys_unique (trackInfo example_ssrc_set)
   \<and> ti_Codecs (trackInfo example_ssrc_set) ! 0 \<in> set (ti_Codecs (trackInfo example_ssrc_set))
   \<and> ci_Layers (ti_Codecs (trackInfo example_ssrc_set) ! 0) ! 0
        \<in> set (ci_Layers (ti_Codecs (trackInfo example_ssrc_set) ! 0))
   \<and> layerSsrc (trackInfo (ssrc_step example_buffer (CallSetLayerSsrc ''video/vp8'' ''q'' 2222) example_ssrc_set))
        ''video/VP8'' VideoQuality_LOW = Some 1111
   \<and> layerSsrc (trackInfo (ssrc_step example_buffer (CallUpdateTrackInfo example_trackInfo) example_ssrc_set))
        ''video/VP8'' VideoQuality_LOW = Some 1111
   \<and> layerSsrc (trackInfo (ssrc_step example_buffer (CallUpdateVideoLayers example_low_layers) example_ssrc_set))
        ''video/VP8'' VideoQuality_LOW = Some 1111
   \<and> layerSsrc (trackInfo (ssrc_step example_buffer (CallUpdateVideoLayers []) example_ssrc_set))
        ''video/VP8'' VideoQuality_LOW = None
   \<and> layerSsrc (trackInfo (ssrc_run example_buffer example_ssrc_set example_ssrc_calls))
        ''video/VP8'' VideoQuality_LOW = Some 1111"
proof -
  let ?ci = "ti_Codecs (trackInfo example_ssrc_set) ! 0"
  let ?l = "ci_Layers ?ci ! 0"
  have h: "layerSsrc (trackInfo example_ssrc_set) ''video/VP8'' VideoQuality_LOW = Some 1111"
    by (simp add: layerSsrc_def codecsLayerSsrc_def example_ssrc_set_eval EqualFold_def)
  have k: "keys_unique (trackInfo example_ssrc_set)"
    by (simp add: keys_unique_def example_ssrc_set_eval example_layers_def toLower_Char
        VideoQuality_LOW_def VideoQuality_MEDIUM_def VideoQuality_HIGH_def)
  have m: "?ci \<in> set (ti_Codecs (trackInfo example_ssrc_set))" "?l \<in> set (ci_Layers ?ci)"
    "ci_MimeType ?ci = ''video/VP8''" "vl_Quality ?l = VideoQuality_LOW" "vl_Ssrc ?l = 1111"
    by (simp_all add: example_ssrc_set_eval)
  have c: "layerSsrc example_trackInfo ''video/VP8'' VideoQuality_LOW \<noteq> None"
    by (simp add: layerSsrc_def codecsLayerSsrc_def example_trackInfo_def example_layers_def EqualFold_def)
  have v: "\<exists>l \<in> set example_low_layers. vl_Quality l = VideoQuality_LOW"
    by (simp add: example_low_layers_def)
  have a: "\<forall>c \<in> set example_ssrc_calls. carries c ''video/VP8'' VideoQuality_LOW"
    using c v by (simp add: example_ssrc_calls_def)
  from h k m c v a
    nonzero_ssrc_kept [of example_ssrc_set "''video/VP8''" VideoQuality_LOW 1111 example_buffer
      "CallSetLayerSsrc ''video/vp8'' ''q'' 2222" ?ci ?l example_ssrc_calls]
    nonzero_ssrc_kept [of example_ssrc_set "''video/VP8''" VideoQuality_LOW 1111 example_buffer
      "CallUpdateTrackInfo example_trackInfo" ?ci ?l example_ssrc_calls]
    nonzero_ssrc_kept [of example_ssrc_set "''video/VP8''" VideoQuality_LOW 1111 example_buffer
      "CallUpdateVideoLayers example_low_layers" ?ci ?l example_ssrc_calls]
    nonzero_ssrc_kept [of example_ssrc_set "''video/VP8''" VideoQuality_LOW 1111 example_buffer
      "CallUpdateVideoLayers []" ?ci ?l example_ssrc_calls]
  show ?thesis by simp
qed

text \<open>
  C3 as stated fails in two places. A layer that an earlier layer of the same quality
  hides: the second low layer of the codec has the ssrc 5, the call carries layers of
  the quality low for it, and afterwards the second low layer of the codec has the ssrc
  9. And a layer that a call in between removed: the low layer of VP8 has the ssrc
  1111, \<open>UpdateVideoLayers\<close> with no layers leaves the codec without layers, and a
  later \<open>UpdateVideoLayers\<close> that carries a low layer of ssrc 9 gives the pair the
  ssrc 9.
\<close>

theorem hidden_layer_ssrc_overwritten:
  "map vl_Quality (ci_Layers (ti_Codecs (trackInfo example_repeated) ! 0)) = [VideoQuality_LOW, VideoQuality_LOW]
   \<and> map vl_Ssrc (ci_Layers (ti_Codecs (trackInfo example_repeated) ! 0)) = [0, 5]
   \<and> map vl_Quality (ci_Layers (ti_Codecs (trackInfo
        (ssrc_step example_buffer (CallUpdateVideoLayers example_low_layers) example_repeated)) ! 0))
       = [VideoQuality_LOW, VideoQuality_LOW]
   \<and> map vl_Ssrc (ci_Layers (ti_Codecs (trackInfo
        (ssrc_step example_buffer (CallUpdateVideoLayers example_low_layers) example_repeated)) ! 0))
       = [9, 9]
   \<and> layerSsrc (trackInfo example_ssrc_set) ''video/VP8'' VideoQuality_LOW = Some 1111
   \<and> layerSsrc (trackInfo (ssrc_run example_buffer example_ssrc_set
        [CallUpdateVideoLayers [], CallUpdateVideoLayers example_low_layers]))
        ''video/VP8'' VideoQuality_LOW = Some 9"
  by (simp add: ssrc_run_def Codecs_UpdateVideoLayers example_repeated_def NewMediaTrackReceiver_def
      example_trackInfo_def example_low_layers_def example_ssrc_set_eval
      layerSsrc_def codecsLayerSsrc_def EqualFold_def)

section \<open>GetQualityForDimension\<close>

lemma loop_stops:
  "ls \<noteq> [] \<Longrightarrow>
     \<exists>i < length ls. GetQualityForDimension_loop k ls target quality = int (k + i)
        \<and> stops_at ls target i \<and> (\<forall>j < i. \<not> stops_at ls target j)"
proof (induction k ls target quality rule: GetQualityForDimension_loop.induct)
  case (1 i requestedSize quality)
  then show ?case by simp
next
  case (2 i s requestedSize quality)
  then show ?case by (simp add: stops_at_def)
next
  case (3 i s s' rest requestedSize quality)
  show ?case
  proof (cases "s \<ge> requestedSize \<and> s \<noteq> s'")
    case True
    then show ?thesis by (intro exI [of _ 0]) (simp add: stops_at_def)
  next
    case False
    from 3(1) [OF False] obtain m where
      m: "m < length (s' # rest)"
         "GetQualityForDimension_loop (Suc i) (s' # rest) requestedSize (int i) = int (Suc i + m)"
         "stops_at (s' # rest) requestedSize m" "\<forall>j < m. \<not> stops_at (s' # rest) requestedSize j"
      by auto
    have sh: "\<And>j. stops_at (s # s' # rest) requestedSize (Suc j) = stops_at (s' # rest) requestedSize j"
      by (auto simp: stops_at_def)
    have z: "\<not> stops_at (s # s' # rest) requestedSize 0"
      using False by (auto simp: stops_at_def)
    have "\<forall>j < Suc m. \<not> stops_at (s # s' # rest) requestedSize j"
    proof (intro allI impI)
      fix j assume "j < Suc m"
      then show "\<not> stops_at (s # s' # rest) requestedSize j"
        using z m(4) sh by (cases j) auto
    qed
    with m False sh show ?thesis
      by (intro exI [of _ "Suc m"]) simp
  qed
qed

lemma bitlen_bounds: "n < 2 ^ bitlen n \<and> (n \<noteq> 0 \<longrightarrow> 2 ^ (bitlen n - 1) \<le> n)"
proof (induction n rule: bitlen.induct)
  case (1 n)
  show ?case
  proof (cases "n = 0")
    case True
    then show ?thesis by (simp add: bitlen.simps)
  next
    case False
    from 1 [OF False] have ih: "n div 2 < 2 ^ bitlen (n div 2)"
      "n div 2 \<noteq> 0 \<longrightarrow> 2 ^ (bitlen (n div 2) - 1) \<le> n div 2" by auto
    have b: "bitlen n = Suc (bitlen (n div 2))" using False by (subst bitlen.simps) simp
    have u: "n < 2 ^ bitlen n" using ih(1) unfolding b by simp
    have l: "2 ^ (bitlen n - 1) \<le> n"
    proof (cases "n div 2 = 0")
      case True
      then have "bitlen (n div 2) = 0" by (simp add: bitlen.simps)
      with False show ?thesis unfolding b by simp
    next
      case f: False
      then have "bitlen (n div 2) \<noteq> 0" by (subst bitlen.simps) simp
      then have "(2::nat) ^ bitlen (n div 2) = 2 * 2 ^ (bitlen (n div 2) - 1)"
        by (cases "bitlen (n div 2)") auto
      with ih(2) f show ?thesis unfolding b by simp
    qed
    from u l show ?thesis by simp
  qed
qed

lemma bitlen_le: "n < 2 ^ k \<Longrightarrow> bitlen n \<le> k"
proof (rule ccontr)
  assume a: "n < 2 ^ k" "\<not> bitlen n \<le> k"
  have "bitlen 0 = 0" by (simp add: bitlen.simps)
  with a(2) have "n \<noteq> 0" by (cases "n = 0") auto
  with bitlen_bounds [of n] have b: "2 ^ (bitlen n - 1) \<le> n" by simp
  from a(2) have "(2::nat) ^ k \<le> 2 ^ (bitlen n - 1)"
    by (intro power_increasing) auto
  also note b
  finally have "2 ^ k \<le> n" .
  with a(1) show False by linarith
qed

lemma roundFloat32_small: "n < 2 ^ 24 \<Longrightarrow> roundFloat32 n = n"
  using bitlen_le [of n 24] by (simp add: roundFloat32_def)

lemma roundFloat32_near:
  assumes "24 < bitlen n"
  shows "2 ^ (bitlen n - 24) dvd roundFloat32 n
       \<and> n \<le> roundFloat32 n + 2 ^ (bitlen n - 25)
       \<and> roundFloat32 n \<le> n + 2 ^ (bitlen n - 25)"
proof -
  define e where "e = bitlen n - 24"
  define E :: nat where "E = 2 ^ e"
  define h :: nat where "h = 2 ^ (e - 1)"
  define q where "q = n div E"
  define r where "r = n mod E"
  from assms have e: "e \<noteq> 0" "e - 1 = bitlen n - 25" by (auto simp: e_def)
  then have Eh: "E = 2 * h" unfolding E_def h_def by (cases e) auto
  have n: "n = q * E + r" "r < E"
    unfolding q_def r_def using div_mult_mod_eq [of n E, symmetric] by (simp_all add: E_def)
  have P: "roundFloat32 n = (if r > h \<or> (r = h \<and> odd q) then q + 1 else q) * E"
    using assms by (simp add: roundFloat32_def Let_def e_def E_def h_def q_def r_def)
  have d: "E dvd roundFloat32 n" unfolding P by simp
  have lo: "n \<le> roundFloat32 n + h" unfolding P using n Eh by (auto simp: algebra_simps)
  have hi: "roundFloat32 n \<le> n + h" unfolding P using n Eh by (auto simp: algebra_simps)
  from d lo hi show ?thesis unfolding E_def h_def e(2) e_def by simp
qed

lemma scale_floor:
  assumes x: "x < 2 ^ 20"
  shows "roundFloat32 (roundFloat32 x * 15099494) div 2 ^ 24 = 9 * x div 10"
proof -
  define N where "N = x * 15099494"
  define P where "P = roundFloat32 N"
  define k where "k = 9 * x div 10"
  have rx: "roundFloat32 x = x" using x by (intro roundFloat32_small) simp
  have k: "10 * k \<le> 9 * x" "9 * x < 10 * k + 10" unfolding k_def by auto
  have "k * 2 ^ 24 \<le> P \<and> P < (k + 1) * 2 ^ 24"
  proof (cases "24 < bitlen N")
    case False
    have "N < 2 ^ bitlen N" using bitlen_bounds by simp
    also have "\<dots> \<le> 2 ^ 24" using False by (intro power_increasing) auto
    finally have "N < 2 ^ 24" .
    moreover from False have "P = N" by (simp add: P_def roundFloat32_def)
    ultimately show ?thesis using k unfolding N_def by auto
  next
    case True
    define e where "e = bitlen N - 24"
    define E :: nat where "E = 2 ^ e"
    define h :: nat where "h = 2 ^ (bitlen N - 25)"
    from True have "e = Suc (bitlen N - 25)" by (simp add: e_def)
    then have Eh: "E = 2 * h" by (simp add: E_def h_def)
    from roundFloat32_near [OF True] have near: "E dvd P" "N \<le> P + h" "P \<le> N + h"
      unfolding P_def E_def h_def e_def by auto
    have "N < 2 ^ 44" unfolding N_def using x by simp
    then have "bitlen N \<le> 44" by (rule bitlen_le)
    then have e20: "e \<le> 20" unfolding e_def by simp
    then have E20: "E \<le> 2 ^ 20" unfolding E_def by (intro power_increasing) auto
    have "N < 2 ^ bitlen N" using bitlen_bounds by simp
    also have "bitlen N = e + 24" using True by (simp add: e_def)
    finally have NE: "N < E * 2 ^ 24" by (simp add: E_def power_add)
    have Ed: "E dvd k * 2 ^ 24" "E dvd (k + 1) * 2 ^ 24"
    proof -
      have "(2::nat) ^ e dvd 2 ^ 24" using e20 by (intro le_imp_power_dvd) simp
      then show "E dvd k * 2 ^ 24" "E dvd (k + 1) * 2 ^ 24" unfolding E_def by auto
    qed
    have lower: "k * 2 ^ 24 \<le> P"
    proof (rule ccontr)
      assume "\<not> k * 2 ^ 24 \<le> P"
      then have lt: "P < k * 2 ^ 24" by simp
      from near(1) obtain a where pa: "P = E * a" by (rule dvdE)
      from Ed(1) obtain b where kb: "k * 2 ^ 24 = E * b" by (rule dvdE)
      note ab = pa kb
      with lt have "a < b" by (metis mult_less_cancel1)
      then have "E * (a + 1) \<le> E * b" by (intro mult_le_mono2) simp
      with ab have "P + E \<le> k * 2 ^ 24" by (simp add: algebra_simps)
      with near(2) Eh k(1) NE show False unfolding N_def by simp
    qed
    have upper: "P < (k + 1) * 2 ^ 24"
    proof (rule ccontr)
      assume "\<not> P < (k + 1) * 2 ^ 24"
      then have "(k + 1) * 2 ^ 24 \<le> P" by simp
      with near(3) Eh k(2) E20 show False unfolding N_def by simp
    qed
    from lower upper show ?thesis ..
  qed
  then have "P div 2 ^ 24 = k"
    by (intro div_nat_eqI) (simp_all add: algebra_simps)
  then show ?thesis unfolding P_def N_def k_def rx .
qed


text \<open>
  The constant: a 24-bit significand, and the nearest one to 0.9 * 2^24.
\<close>

lemma layerSelectionTolerance_nearest:
  "2 ^ 23 \<le> layerSelectionTolerance \<and> layerSelectionTolerance < 2 ^ 24
   \<and> 2 * \<bar>10 * int layerSelectionTolerance - 9 * 2 ^ 24\<bar> < 10"
  by (simp add: layerSelectionTolerance_def)

lemma scaleByTolerance_floor:
  assumes "unat x < 2 ^ 20"
  shows "scaleByTolerance x = of_nat (9 * unat x div 10)"
  using scale_floor [OF assms] by (simp add: scaleByTolerance_def layerSelectionTolerance_def)

lemma unat_scaleByTolerance:
  assumes "unat x < 2 ^ 20"
  shows "unat (scaleByTolerance x) = 9 * unat x div 10"
proof -
  have "9 * unat x div 10 < 2 ^ 32" using assms by simp
  then show ?thesis
    unfolding scaleByTolerance_floor [OF assms] by (simp add: unat_of_nat)
qed

lemma scale_examples:
  "scaleByTolerance 360 = 324" "scaleByTolerance 720 = 648" "scaleByTolerance 533 = 479"
  by (simp_all add: scaleByTolerance_floor)

lemma bitlen_eq:
  assumes "2 ^ k \<le> n" "n < 2 ^ Suc k"
  shows "bitlen n = Suc k"
proof -
  have a: "bitlen n \<le> Suc k" using assms(2) by (rule bitlen_le)
  have "n < 2 ^ bitlen n" using bitlen_bounds by simp
  with assms(1) have "(2::nat) ^ k < 2 ^ bitlen n" by linarith
  then have "k < bitlen n" by (simp add: power_strict_increasing_iff)
  with a show ?thesis by simp
qed

lemma bitlen_product: "bitlen 70368790967454 = 47"
proof -
  have "bitlen 70368790967454 = Suc 46"
    by (rule bitlen_eq) simp_all
  then show ?thesis by simp
qed

text \<open>
  Beyond that range the float32 product is no longer nine tenths rounded down: the
  first requested size where the two differ.
\<close>

lemma scaleByTolerance_large:
  "scaleByTolerance 4660341 = 4194307 \<and> (9 * 4660341 div 10 :: nat) = 4194306"
proof -
  have r: "roundFloat32 4660341 = 4660341" by (rule roundFloat32_small) simp
  have "roundFloat32 (4660341 * 15099494) = 4194307 * 2 ^ 24 + 0"
    by (simp add: roundFloat32_def bitlen_product Let_def)
  then have "roundFloat32 (4660341 * 15099494) div 2 ^ 24 = 4194307"
    by (simp only: div_mult_self3) simp
  then show ?thesis
    by (simp add: scaleByTolerance_def layerSelectionTolerance_def r)
qed

text \<open>
  C1, as the code has it. For every call \<open>GetQualityForDimension(width, height)\<close>: an
  audio track gives high; a TrackInfo of height 0 gives high; otherwise, when TrackInfo
  has layers the sizes are their heights sorted ascending and the requested size is the
  height, always; when it has none the requested size is the width and the sizes are
  180, 360, TrackInfo.width for a portrait TrackInfo, and the height and 180, 360,
  TrackInfo.height otherwise. The target is
  \<open>uint32(float32(requested) * 0.9)\<close>, which is the requested size times nine tenths,
  rounded down, for every requested size below 2^20. The result is
  \<open>VideoQuality(i)\<close> for the first index \<open>i\<close> that is the last index or whose size
  reaches the target and differs from the next size. It is one of low, medium, high
  whenever TrackInfo has at most three layers.
\<close>

theorem GetQualityForDimension_selection:
  "let ti = trackInfo t;
       portrait = ti_Width ti < ti_Height ti;
       layerSizes = (if ti_Layers ti \<noteq> [] then sort (map vl_Height (ti_Layers ti))
                     else [180, 360, if portrait then ti_Width ti else ti_Height ti]);
       requested = (if ti_Layers ti \<noteq> [] then height else if portrait then width else height);
       target = scaleByTolerance requested;
       result = GetQualityForDimension width height t
   in (ti_Type ti = TrackType_AUDIO \<longrightarrow> result = VideoQuality_HIGH)
    \<and> (ti_Height ti = 0 \<longrightarrow> result = VideoQuality_HIGH)
    \<and> (ti_Type ti \<noteq> TrackType_AUDIO \<and> ti_Height ti \<noteq> 0 \<longrightarrow>
         (\<exists>i < length layerSizes. result = int i \<and> stops_at layerSizes target i
            \<and> (\<forall>j < i. \<not> stops_at layerSizes target j)))
    \<and> (unat requested < 2 ^ 20 \<longrightarrow> unat target = 9 * unat requested div 10)
    \<and> (length (ti_Layers ti) \<le> 3 \<longrightarrow>
         result \<in> {VideoQuality_LOW, VideoQuality_MEDIUM, VideoQuality_HIGH})"
proof -
  define ti where "ti = trackInfo t"
  define portrait where "portrait = (ti_Width ti < ti_Height ti)"
  define layerSizes where "layerSizes = (if ti_Layers ti \<noteq> [] then sort (map vl_Height (ti_Layers ti))
                     else [180, 360, if portrait then ti_Width ti else ti_Height ti])"
  define requested where "requested = (if ti_Layers ti \<noteq> [] then height else if portrait then width else height)"
  define target where "target = scaleByTolerance requested"
  define result where "result = GetQualityForDimension width height t"
  have ll: "length layerSizes = (if ti_Layers ti \<noteq> [] then length (ti_Layers ti) else 3)"
    unfolding layerSizes_def by simp
  have ne: "layerSizes \<noteq> []"
  proof
    assume "layerSizes = []"
    with ll show False by (auto split: if_splits)
  qed
  have len: "length (ti_Layers ti) \<le> 3 \<Longrightarrow> length layerSizes \<le> 3"
    unfolding ll by auto
  have a: "ti_Type ti = TrackType_AUDIO \<longrightarrow> result = VideoQuality_HIGH"
    unfolding result_def ti_def by (simp add: GetQualityForDimension_def Let_def)
  have b: "ti_Height ti = 0 \<longrightarrow> result = VideoQuality_HIGH"
    unfolding result_def ti_def by (simp add: GetQualityForDimension_def Let_def)
  have r: "ti_Type ti \<noteq> TrackType_AUDIO \<and> ti_Height ti \<noteq> 0 \<Longrightarrow>
             result = GetQualityForDimension_loop 0 layerSizes target VideoQuality_HIGH"
    unfolding result_def ti_def layerSizes_def target_def requested_def portrait_def
    by (simp add: GetQualityForDimension_def Let_def)
  have c: "ti_Type ti \<noteq> TrackType_AUDIO \<and> ti_Height ti \<noteq> 0 \<longrightarrow>
         (\<exists>i < length layerSizes. result = int i \<and> stops_at layerSizes target i
            \<and> (\<forall>j < i. \<not> stops_at layerSizes target j))"
    using loop_stops [OF ne, of 0 target VideoQuality_HIGH] r by auto
  have d: "unat requested < 2 ^ 20 \<longrightarrow> unat target = 9 * unat requested div 10"
    unfolding target_def by (simp add: unat_scaleByTolerance)
  have e: "length (ti_Layers ti) \<le> 3 \<longrightarrow> result \<in> {VideoQuality_LOW, VideoQuality_MEDIUM, VideoQuality_HIGH}"
  proof
    assume l: "length (ti_Layers ti) \<le> 3"
    show "result \<in> {VideoQuality_LOW, VideoQuality_MEDIUM, VideoQuality_HIGH}"
    proof (cases "ti_Type ti \<noteq> TrackType_AUDIO \<and> ti_Height ti \<noteq> 0")
      case True
      with c obtain i where "i < length layerSizes" "result = int i" by blast
      with len [OF l] have "result = 0 \<or> result = 1 \<or> result = 2" by auto
      then show ?thesis
        by (auto simp: VideoQuality_LOW_def VideoQuality_MEDIUM_def VideoQuality_HIGH_def)
    next
      case False
      with a b show ?thesis by auto
    qed
  qed
  from a b c d e show ?thesis
    unfolding Let_def ti_def [symmetric] portrait_def [symmetric] layerSizes_def [symmetric]
      requested_def [symmetric] target_def [symmetric] result_def [symmetric]
    by blast
qed

lemmas gq_eval = GetQualityForDimension_def GetQualityForDimension_as_specified_def
  NewMediaTrackReceiver_def example_trackInfo_def example_layers_def Let_def
  VideoQuality_LOW_def VideoQuality_MEDIUM_def VideoQuality_HIGH_def VideoQuality_OFF_def

text \<open>
  C1 as stated fails in three places. A portrait track with layers, asked for 300 by
  533: the code compares the height 533 (target 479) and answers medium, the statement
  takes the width 300 (target 270) and answers low. A portrait track of 360 by 640
  without layers, asked for 360 by 640: the code's sizes are 180, 360, 360 and it answers
  high, the statement's are 180, 360, 640 and it answers medium. A track with four
  layers, asked for 1280 by 720: the code answers \<open>VideoQuality(3)\<close>, which is off.
\<close>

theorem GetQualityForDimension_differs:
  "GetQualityForDimension 300 533 example_portrait_layers = VideoQuality_MEDIUM
   \<and> GetQualityForDimension_as_specified 300 533 example_portrait_layers = VideoQuality_LOW
   \<and> GetQualityForDimension 360 640 example_portrait_plain = VideoQuality_HIGH
   \<and> GetQualityForDimension_as_specified 360 640 example_portrait_plain = VideoQuality_MEDIUM
   \<and> GetQualityForDimension 1280 720 example_four_layers = VideoQuality_OFF
   \<and> VideoQuality_OFF \<notin> {VideoQuality_LOW, VideoQuality_MEDIUM, VideoQuality_HIGH}"
  by (simp add: example_portrait_layers_def example_portrait_plain_def example_four_layers_def
      gq_eval scale_examples)


text \<open>
  Scenario 4 of the spec, layers of heights 180, 360, 720: a request of 640 by 360 has
  the target 324 and gets medium; a request of 1280 by 720 has the target 648 and gets
  high.
\<close>

theorem GetQualityForDimension_selection_witness:
  "ti_Type (trackInfo example_new) \<noteq> TrackType_AUDIO \<and> ti_Height (trackInfo example_new) \<noteq> 0
   \<and> length (ti_Layers (trackInfo example_new)) \<le> 3 \<and> unat (360 :: 32 word) < 2 ^ 20
   \<and> unat (scaleByTolerance 360) = 324
   \<and> GetQualityForDimension 640 360 example_new = VideoQuality_MEDIUM
   \<and> GetQualityForDimension 1280 720 example_new = VideoQuality_HIGH"
  using GetQualityForDimension_selection [of example_new 360 640]
    GetQualityForDimension_selection [of example_new 720 1280]
  by (simp add: example_new_def gq_eval scale_examples)

end
